theory Spec2Isabelle
  imports Main
begin

section \<open>The IPython console plugin of Spyder: clients, kernels and their registry\<close>

text \<open>
  This theory embeds the session handling of \<^verbatim>\<open>spyderlib/plugins/ipythonconsole.py\<close>:
  the class \<^verbatim>\<open>IPythonClient\<close> (one console tab attached to a kernel) and the methods of
  the plugin class \<^verbatim>\<open>IPythonConsole\<close> that create, look up, move, restart and close
  clients. The code is Python 2 over Qt; every mutation of the plugin is written as a
  function from the plugin's state to its new state, every exception as a value.
\<close>

subsection \<open>Exceptions\<close>

text \<open>
  The exceptions the modelled code can raise. \<open>AttributeError\<close> is what Python raises for
  \<^verbatim>\<open>None.groups()\<close> and \<^verbatim>\<open>None.close()\<close>; \<open>ValueError\<close> comes from \<^verbatim>\<open>chr\<close>,
  \<^verbatim>\<open>list.remove\<close> and the explicit \<^verbatim>\<open>raise\<close> of \<^verbatim>\<open>get_ipython_widget\<close>;
  \<open>IndexError\<close> from \<^verbatim>\<open>list.pop\<close>; \<open>TypeError\<close> from a Qt call that is given
  \<^verbatim>\<open>None\<close> for an integer. \<open>IOError\<close> and \<open>UnboundLocalError\<close> are the two that
  \<^verbatim>\<open>new_client\<close> catches; \<open>OtherError\<close> stands for any other exception of a collaborator.
\<close>

datatype py_error =
  AttributeError | ValueError | IndexError | TypeError | IOError | UnboundLocalError
  | OtherError

subsection \<open>The regular expressions\<close>

text \<open>
  The three patterns of the file, each used with \<^verbatim>\<open>re.match\<close> (anchored at the start of
  the string, free at its end):
  \<^item> \<^verbatim>\<open>(kernel-|^)([a-fA-F0-9-]+)(.json|$)\<close> on the text typed in the dialog,
  \<^item> \<^verbatim>\<open>^kernel-([a-fA-F0-9-]+).json\<close> on the connection file, for the client's name,
  \<^item> \<^verbatim>\<open>^kernel-(\d+).json\<close> on the connection file, for the tab's text after a restart.

  Python's matcher is a backtracking one. The character run \<^verbatim>\<open>[...]+\<close> is greedy: it
  first takes the longest run and gives characters back one at a time, down to one
  character, until what follows the run matches. The unescaped \<^verbatim>\<open>.\<close> is any character
  but a newline, and \<^verbatim>\<open>$\<close> holds at the end of the string and just before a newline
  that ends the string. Strings are Python 2 byte strings, so a character is a byte.
\<close>

definition hexdash :: "char \<Rightarrow> bool" where
  "hexdash c = (c \<in> set ''abcdefABCDEF0123456789-'')"

definition digit :: "char \<Rightarrow> bool" where
  "digit c = (c \<in> set ''0123456789'')"

text \<open>\<^verbatim>\<open>.json\<close> at the start of \<open>s\<close>: one character that is no newline, then \<^verbatim>\<open>json\<close>.\<close>

definition dot_json :: "string \<Rightarrow> bool" where
  "dot_json s = (case s of [] \<Rightarrow> False | c # r \<Rightarrow> c \<noteq> CHR 0x0A \<and> take 4 r = ''json'')"

text \<open>\<^verbatim>\<open>$\<close> at the start of \<open>s\<close>: nothing is left, or only the final newline.\<close>

definition at_end :: "string \<Rightarrow> bool" where
  "at_end s = (s = [] \<or> s = [CHR 0x0A])"

text \<open>
  \<open>backtrack cont s k\<close> tries run lengths \<open>k\<close>, \<open>k - 1\<close>, ..., \<open>1\<close> in this order and returns
  the first run after which the continuation \<open>cont\<close> matches; the run is the group the
  source reads with \<^verbatim>\<open>match.groups()\<close>. \<open>None\<close> is Python's \<^verbatim>\<open>None\<close>: no match.
\<close>

fun backtrack :: "(string \<Rightarrow> bool) \<Rightarrow> string \<Rightarrow> nat \<Rightarrow> string option" where
  "backtrack cont s 0 = None"
| "backtrack cont s (Suc k) =
     (if cont (drop (Suc k) s) then Some (take (Suc k) s) else backtrack cont s k)"

definition greedy_plus :: "(char \<Rightarrow> bool) \<Rightarrow> (string \<Rightarrow> bool) \<Rightarrow> string \<Rightarrow> string option" where
  "greedy_plus cls cont s = backtrack cont s (length (takeWhile cls s))"

text \<open>
  \<^verbatim>\<open>re.match('(kernel-|^)([a-fA-F0-9-]+)(.json|$)', cf)\<close>, giving \<^verbatim>\<open>match.groups()[1]\<close>.
  The first alternative of the first group is tried with every run length before the
  second alternative (the empty prefix) is.
\<close>

definition match_typed :: "string \<Rightarrow> string option" where
  "match_typed cf =
     (let cont = (\<lambda>r. dot_json r \<or> at_end r) in
      case (if take 7 cf = ''kernel-'' then greedy_plus hexdash cont (drop 7 cf) else None) of
        Some kernel_num \<Rightarrow> Some kernel_num
      | None \<Rightarrow> greedy_plus hexdash cont cf)"

text \<open>\<^verbatim>\<open>re.match('^kernel-([a-fA-F0-9-]+).json', cf)\<close>, giving \<^verbatim>\<open>match.groups()[0]\<close>.\<close>

definition match_connection_file :: "string \<Rightarrow> string option" where
  "match_connection_file cf =
     (if take 7 cf = ''kernel-'' then greedy_plus hexdash dot_json (drop 7 cf) else None)"

text \<open>\<^verbatim>\<open>re.match('^kernel-(\d+).json', connection_file)\<close>, giving \<^verbatim>\<open>match.groups()[0]\<close>.\<close>

definition match_pid_file :: "string \<Rightarrow> string option" where
  "match_pid_file cf =
     (if take 7 cf = ''kernel-'' then greedy_plus digit dot_json (drop 7 cf) else None)"

subsection \<open>Python's \<^verbatim>\<open>chr\<close>\<close>

text \<open>
  \<^verbatim>\<open>chr(i)\<close> of Python 2: the byte \<open>i\<close> for \<open>i\<close> in \<open>range(256)\<close>, a \<open>ValueError\<close>
  otherwise. \<^verbatim>\<open>chr(65)\<close>, which cannot fail, is written \<open>char_of 65\<close> directly.
\<close>

definition chr :: "nat \<Rightarrow> py_error + char" where
  "chr i = (if i < 256 then Inr (char_of i) else Inl ValueError)"

subsection \<open>Clients, kernel widgets and the plugin\<close>

text \<open>
  Every Python object the code compares with \<^verbatim>\<open>is\<close> or through \<^verbatim>\<open>id(...)\<close> carries its
  identity as a number. An \<^verbatim>\<open>IPythonClient\<close> holds the attributes set by its
  \<^verbatim>\<open>__init__\<close>; the model adds to it what the code keeps on the client's Qt side:
  \<^item> \<open>tab_text\<close>: the text of the client's tab in \<^verbatim>\<open>self.tabwidget\<close>,
  \<^item> \<open>custom_interrupt_requested\<close>, \<open>custom_restart_requested\<close>: the slot that
    \<^verbatim>\<open>register_client\<close> connects to the signal of that name of the client's IPython widget,
  \<^item> \<open>plain_text\<close>: what \<^verbatim>\<open>ipython_widget._append_plain_text\<close> has written to the console.
\<close>

datatype interrupt_slot =
  Kernel_keyboard_interrupt nat  \<comment> \<open>\<^verbatim>\<open>spyder_kernel.keyboard_interrupt\<close>, of the kernel widget with this id\<close>
  | Client_interrupt_message     \<comment> \<open>\<^verbatim>\<open>shellwidget.interrupt_message\<close>\<close>

datatype restart_slot =
  Plugin_create_new_kernel       \<comment> \<open>\<^verbatim>\<open>self.create_new_kernel\<close>\<close>
  | Client_restart_message       \<comment> \<open>\<^verbatim>\<open>shellwidget.restart_message\<close>\<close>

record IPythonClient =
  client_id :: nat
  connection_file :: string
  kernel_widget_id :: "nat option"
  client_name :: string
  ipython_widget :: nat
  tab_text :: string
  custom_interrupt_requested :: interrupt_slot
  custom_restart_requested :: restart_slot
  plain_text :: "string list"

text \<open>
  A shell widget of the external console (\<^verbatim>\<open>self.main.extconsole.shellwidgets\<close>): the code
  reads its identity and its \<^verbatim>\<open>connection_file\<close>, which is \<^verbatim>\<open>None\<close> for a widget that
  has none (yet).
\<close>

record kernel_widget =
  kernel_id :: nat
  kernel_connection_file :: "string option"

text \<open>
  The plugin. \<^verbatim>\<open>self.tabwidget\<close> and \<^verbatim>\<open>self.shellwidgets\<close> hold the same widgets in the
  same order: \<^verbatim>\<open>add_tab\<close> appends to both, \<^verbatim>\<open>close_console\<close> removes from both and
  \<^verbatim>\<open>move_tab\<close> repeats on the list the move the tab widget has made. The model keeps the
  one sequence \<open>shellwidgets\<close>; \<^verbatim>\<open>tabwidget.count()\<close>, \<^verbatim>\<open>indexOf\<close> and \<^verbatim>\<open>widget(index)\<close>
  read it. The remaining fields are the collaborators the code acts on: the external
  console's widgets, the option \<^verbatim>\<open>ask_before_closing\<close>, the next free object identity,
  the number of \<^verbatim>\<open>QMessageBox.question\<close> dialogs shown so far, and logs of the
  \<^verbatim>\<open>QMessageBox.critical\<close> and \<^verbatim>\<open>QMessageBox.information\<close> boxes shown and of the
  \<^verbatim>\<open>keyboard_interrupt\<close> calls made on kernel widgets.
\<close>

record IPythonConsole =
  shellwidgets :: "IPythonClient list"
  extconsole :: "kernel_widget list"
  ask_before_closing :: bool
  next_id :: nat
  questions :: nat
  criticals :: "string list"
  informations :: "(nat \<times> string) list"
  keyboard_interrupts :: "nat list"

text \<open>
  \<^verbatim>\<open>IPythonConsole.__init__\<close>: \<^verbatim>\<open>self.shellwidgets = []\<close>. The external console may hold
  kernel widgets already. Two objects that are alive never have the same \<^verbatim>\<open>id(...)\<close>, so
  the identities given out later start above \<open>n\<close> and above the identity of every kernel
  widget there is.
\<close>

definition init :: "kernel_widget list \<Rightarrow> bool \<Rightarrow> nat \<Rightarrow> IPythonConsole" where
  "init kernels ask n =
     \<lparr>shellwidgets = [], extconsole = kernels, ask_before_closing = ask,
      next_id = fold (\<lambda>k m. max (Suc (kernel_id k)) m) kernels n,
      questions = 0, criticals = [], informations = [], keyboard_interrupts = []\<rparr>"

text \<open>
  What the plugin cannot decide: the buttons the user presses in the successive question
  dialogs, and whether \<^verbatim>\<open>self.ipython_app.create_new_client(connection_file)\<close> raises
  (\<open>None\<close>: it returns the new IPython widget).
\<close>

datatype answer = Yes | No | Cancel

record env =
  answers :: "nat \<Rightarrow> answer"
  create_new_client :: "string \<Rightarrow> py_error option"

text \<open>How a method call ends. \<open>Blocked\<close>: it waits in a dialog that is never answered.\<close>

datatype outcome = Returned | Raised py_error | Blocked

subsection \<open>\<^verbatim>\<open>IPythonClient\<close>: the methods the plugin relies on\<close>

text \<open>\<^verbatim>\<open>get_name\<close>: \<^verbatim>\<open>_("Console") + " " + self.client_name\<close> (untranslated).\<close>

definition get_name :: "IPythonClient \<Rightarrow> string" where
  "get_name c = ''Console'' @ '' '' @ client_name c"

definition kernel_died_message :: string where
  "kernel_died_message =
     ''It seems the kernel died unexpectedly. Use '' @
     [CHR 0x27] @ ''Restart kernel'' @ [CHR 0x27] @ '' to continue using this console.''"

text \<open>\<^verbatim>\<open>if_kernel_dies\<close>: appends the message and a newline to the console; nothing else.\<close>

definition if_kernel_dies :: "IPythonClient \<Rightarrow> IPythonClient" where
  "if_kernel_dies c = c\<lparr>plain_text := plain_text c @ [kernel_died_message @ [CHR 0x0A]]\<rparr>"

definition cannot_interrupt :: string where
  "cannot_interrupt = ''Kernel process is either remote or unspecified. Cannot interrupt''"

text \<open>\<^verbatim>\<open>interrupt_message\<close>: an information box on the client.\<close>

definition interrupt_message :: "IPythonClient \<Rightarrow> IPythonConsole \<Rightarrow> IPythonConsole" where
  "interrupt_message c s = s\<lparr>informations := informations s @ [(client_id c, cannot_interrupt)]\<rparr>"

subsection \<open>\<^verbatim>\<open>new_client\<close> and \<^verbatim>\<open>register_client\<close>\<close>

text \<open>
  The dialog loop of \<^verbatim>\<open>new_client\<close>, over the successive results \<open>(cf, valid)\<close> of
  \<^verbatim>\<open>QInputDialog.getText\<close>. \<^verbatim>\<open>match.groups()\<close> raises when there is no match; an empty
  \<^verbatim>\<open>kernel_num\<close> asks again; a dismissed dialog returns from \<^verbatim>\<open>new_client\<close>.
\<close>

datatype typed = Accepted string | Dismissed | Failed py_error | Unanswered

fun ask_connection_file :: "(string \<times> bool) list \<Rightarrow> typed" where
  "ask_connection_file [] = Unanswered"
| "ask_connection_file ((cf, valid) # later) =
     (if valid then
        (case match_typed cf of
           None \<Rightarrow> Failed AttributeError
         | Some kernel_num \<Rightarrow>
             if kernel_num \<noteq> [] then Accepted (''kernel-'' @ kernel_num @ ''.json'')
             else ask_connection_file later)
      else Dismissed)"

text \<open>\<^verbatim>\<open>get_clients\<close>: every shell widget of the plugin is an \<^verbatim>\<open>IPythonClient\<close>.\<close>

definition get_clients :: "IPythonConsole \<Rightarrow> IPythonClient list" where
  "get_clients s = shellwidgets s"

text \<open>
  The naming loop of \<^verbatim>\<open>new_client\<close>: the candidate \<^verbatim>\<open>fragment + '/' + chr(65+count)\<close>; the
  first client that bears it gives its \<^verbatim>\<open>kernel_widget_id\<close> and the next letter is
  tried; a candidate nobody bears ends the loop. The result is the pair
  \<open>(client_name, kernel_widget_id)\<close> the code goes on with.
\<close>

function naming_loop ::
  "string \<Rightarrow> IPythonClient list \<Rightarrow> nat option \<Rightarrow> nat \<Rightarrow> py_error + (string \<times> nat option)" where
  "naming_loop fragment clients kwid count =
     (case chr (65 + count) of
        Inl err \<Rightarrow> Inl err
      | Inr letter \<Rightarrow>
          (case find (\<lambda>clw. client_name clw = fragment @ ''/'' @ [letter]) clients of
             Some clw \<Rightarrow> naming_loop fragment clients (kernel_widget_id clw) (count + 1)
           | None \<Rightarrow> Inr (fragment @ ''/'' @ [letter], kwid)))"
  by pat_completeness auto
termination
  by (relation "measure (\<lambda>(fragment, clients, kwid, count). 256 - count)")
    (auto simp: chr_def split: if_splits)

text \<open>
  The second source of the kernel widget's id: every shell widget of the external
  console is looked at, and the last one with the connection file wins (no \<^verbatim>\<open>break\<close>).
\<close>

fun scan_extconsole :: "string \<Rightarrow> kernel_widget list \<Rightarrow> nat option \<Rightarrow> nat option" where
  "scan_extconsole cf [] kwid = kwid"
| "scan_extconsole cf (sw # sws) kwid =
     scan_extconsole cf sws (if kernel_connection_file sw = Some cf then Some (kernel_id sw) else kwid)"

text \<open>
  \<^verbatim>\<open>add_tab\<close>: the widget is appended to \<^verbatim>\<open>self.shellwidgets\<close> and its tab, with the given
  text, to the tab widget.
\<close>

definition add_tab :: "IPythonClient \<Rightarrow> string \<Rightarrow> IPythonConsole \<Rightarrow> IPythonConsole" where
  "add_tab widget name s = s\<lparr>shellwidgets := shellwidgets s @ [widget\<lparr>tab_text := name\<rparr>]\<rparr>"

text \<open>
  \<^verbatim>\<open>register_client\<close>. The first statement asks the IPython application for the client's
  widget and may raise; nothing of the plugin has changed then. Otherwise the client
  object is built, its signals are connected and \<^verbatim>\<open>add_tab\<close> registers it; the calls
  in between (the signal connections, the history log, the font) are taken not to raise. The kernel
  counts as one of Spyder's own (\<^verbatim>\<open>spyder_kernel\<close>) when the external console has shell
  widgets and the last of them has the client's connection file.
\<close>

definition spyder_kernel :: "IPythonConsole \<Rightarrow> string \<Rightarrow> kernel_widget option" where
  "spyder_kernel s cf =
     (if extconsole s \<noteq> [] \<and> kernel_connection_file (last (extconsole s)) = Some cf
      then Some (last (extconsole s)) else None)"

definition register_client ::
  "env \<Rightarrow> string \<Rightarrow> nat option \<Rightarrow> string \<Rightarrow> IPythonConsole \<Rightarrow> outcome \<times> IPythonConsole" where
  "register_client e cf kwid name s =
     (case create_new_client e cf of
        Some err \<Rightarrow> (Raised err, s)
      | None \<Rightarrow>
          (let shellwidget =
                 \<lparr>client_id = next_id s + 1, connection_file = cf, kernel_widget_id = kwid,
                  client_name = name, ipython_widget = next_id s, tab_text = [],
                  custom_interrupt_requested =
                    (case spyder_kernel s cf of
                       Some k \<Rightarrow> Kernel_keyboard_interrupt (kernel_id k)
                     | None \<Rightarrow> Client_interrupt_message),
                  custom_restart_requested =
                    (case spyder_kernel s cf of
                       Some k \<Rightarrow> Plugin_create_new_kernel
                     | None \<Rightarrow> Client_restart_message),
                  plain_text = []\<rparr>
           in (Returned, add_tab shellwidget (get_name shellwidget) (s\<lparr>next_id := next_id s + 2\<rparr>))))"

text \<open>The text of the critical box: \<^verbatim>\<open>"Unable to connect to IPython kernel <b>`%s`" % cf\<close>.\<close>

definition unable_to_connect :: "string \<Rightarrow> string" where
  "unable_to_connect cf = ''Unable to connect to IPython kernel <b>`'' @ cf @ ''`''"

text \<open>
  \<^verbatim>\<open>new_client(connection_file, kernel_widget_id)\<close>, the two arguments as \<open>given_file\<close>
  and \<open>given_kwid\<close>. \<open>typed\<close> are the successive results of the input dialog, read only
  when no connection file is given. \<^verbatim>\<open>IOError\<close> and \<^verbatim>\<open>UnboundLocalError\<close> of
  \<^verbatim>\<open>register_client\<close> are caught and reported in a critical box; any other exception
  leaves \<^verbatim>\<open>new_client\<close>.
\<close>

definition new_client ::
  "env \<Rightarrow> (string \<times> bool) list \<Rightarrow> string option \<Rightarrow> nat option \<Rightarrow> IPythonConsole
     \<Rightarrow> outcome \<times> IPythonConsole" where
  "new_client e typed given_file given_kwid s =
     (case (case given_file of None \<Rightarrow> ask_connection_file typed | Some cf \<Rightarrow> Accepted cf) of
        Unanswered \<Rightarrow> (Blocked, s)
      | Dismissed \<Rightarrow> (Returned, s)
      | Failed err \<Rightarrow> (Raised err, s)
      | Accepted cf \<Rightarrow>
          (case match_connection_file cf of
             None \<Rightarrow> (Raised AttributeError, s)
           | Some fragment \<Rightarrow>
               (case naming_loop fragment (get_clients s) given_kwid 0 of
                  Inl err \<Rightarrow> (Raised err, s)
                | Inr (name, kwid) \<Rightarrow>
                    (let kwid' = (if kwid = None then scan_extconsole cf (extconsole s) kwid
                                  else kwid)
                     in case register_client e cf kwid' name s of
                          (Raised err, s') \<Rightarrow>
                            if err = IOError \<or> err = UnboundLocalError
                            then (Returned, s'\<lparr>criticals := criticals s' @ [unable_to_connect cf]\<rparr>)
                            else (Raised err, s')
                        | r \<Rightarrow> r))))"

subsection \<open>Lookup and reordering\<close>

text \<open>
  \<^verbatim>\<open>get_ipython_widget\<close>: the \<^verbatim>\<open>for ... else\<close> loop returns at the first client with the
  kernel widget id and raises \<open>ValueError\<close> when the loop runs to its end.
\<close>

fun get_ipython_widget_loop :: "IPythonClient list \<Rightarrow> nat option \<Rightarrow> py_error + nat" where
  "get_ipython_widget_loop [] kwid = Inl ValueError"
| "get_ipython_widget_loop (clw # clws) kwid =
     (if kernel_widget_id clw = kwid then Inr (ipython_widget clw)
      else get_ipython_widget_loop clws kwid)"

definition get_ipython_widget :: "IPythonConsole \<Rightarrow> nat option \<Rightarrow> py_error + nat" where
  "get_ipython_widget s kwid = get_ipython_widget_loop (shellwidgets s) kwid"

text \<open>
  \<^verbatim>\<open>get_shell_index_from_id\<close>: the index of the first shell widget with the identity,
  \<^verbatim>\<open>None\<close> when the loop ends without one.
\<close>

fun index_from_id :: "nat list \<Rightarrow> nat \<Rightarrow> nat \<Rightarrow> nat option" where
  "index_from_id [] shell_id index = None"
| "index_from_id (i # ids) shell_id index =
     (if i = shell_id then Some index else index_from_id ids shell_id (index + 1))"

definition get_shell_index_from_id :: "IPythonConsole \<Rightarrow> nat \<Rightarrow> nat option" where
  "get_shell_index_from_id s shell_id = index_from_id (map client_id (shellwidgets s)) shell_id 0"

text \<open>
  \<^verbatim>\<open>list.pop(i)\<close> and \<^verbatim>\<open>list.insert(i, x)\<close> of Python: a negative index counts from the
  end; \<^verbatim>\<open>pop\<close> raises \<open>IndexError\<close> out of range, \<^verbatim>\<open>insert\<close> clips the index.
\<close>

definition py_pop :: "'a list \<Rightarrow> int \<Rightarrow> py_error + ('a \<times> 'a list)" where
  "py_pop xs i =
     (let n = int (length xs); j = (if i < 0 then i + n else i)
      in if 0 \<le> j \<and> j < n then Inr (xs ! nat j, take (nat j) xs @ drop (nat j + 1) xs)
         else Inl IndexError)"

definition py_insert :: "'a list \<Rightarrow> int \<Rightarrow> 'a \<Rightarrow> 'a list" where
  "py_insert xs i x =
     (let n = int (length xs); j = (if i < 0 then max 0 (i + n) else min i n)
      in take (nat j) xs @ [x] @ drop (nat j) xs)"

text \<open>\<^verbatim>\<open>move_tab\<close>: \<^verbatim>\<open>shell = self.shellwidgets.pop(index_from)\<close>, then the insertion.\<close>

definition move_tab :: "int \<Rightarrow> int \<Rightarrow> IPythonConsole \<Rightarrow> outcome \<times> IPythonConsole" where
  "move_tab index_from index_to s =
     (case py_pop (shellwidgets s) index_from of
        Inl err \<Rightarrow> (Raised err, s)
      | Inr (shell, rest) \<Rightarrow> (Returned, s\<lparr>shellwidgets := py_insert rest index_to shell\<rparr>))"

subsection \<open>The tab widget and the external console\<close>

text \<open>
  Qt's \<^verbatim>\<open>QTabWidget\<close>, read off \<open>shellwidgets\<close>: \<^verbatim>\<open>indexOf(widget)\<close> is the index of the
  widget's tab or \<open>-1\<close>; \<^verbatim>\<open>widget(index)\<close> is the widget of the tab or, out of range,
  a null pointer (\<^verbatim>\<open>None\<close> in Python).
\<close>

definition indexOf :: "IPythonConsole \<Rightarrow> nat \<Rightarrow> int" where
  "indexOf s w = (case get_shell_index_from_id s w of None \<Rightarrow> - 1 | Some i \<Rightarrow> int i)"

definition tab_widget :: "IPythonConsole \<Rightarrow> int \<Rightarrow> IPythonClient option" where
  "tab_widget s index =
     (if 0 \<le> index \<and> index < int (length (shellwidgets s))
      then Some (shellwidgets s ! nat index) else None)"

text \<open>
  \<^verbatim>\<open>self.tabwidget.removeTab(self.tabwidget.indexOf(widget))\<close> followed by
  \<^verbatim>\<open>self.shellwidgets.remove(widget)\<close>: the first entry that is this object leaves the
  sequence; when there is none, \<^verbatim>\<open>removeTab(-1)\<close> does nothing and \<^verbatim>\<open>list.remove\<close> raises.
\<close>

fun remove_widget :: "nat \<Rightarrow> IPythonClient list \<Rightarrow> IPythonClient list" where
  "remove_widget w [] = []"
| "remove_widget w (clw # clws) =
     (if client_id clw = w then clws else clw # remove_widget w clws)"

definition remove_tab_and_widget :: "nat \<Rightarrow> IPythonConsole \<Rightarrow> outcome \<times> IPythonConsole" where
  "remove_tab_and_widget w s =
     (if w \<in> set (map client_id (shellwidgets s))
      then (Returned, s\<lparr>shellwidgets := remove_widget w (shellwidgets s)\<rparr>)
      else (Raised ValueError, s))"

text \<open>
  Modelled from the spec: the external console (\<^verbatim>\<open>self.main.extconsole\<close>, the kernel
  supervisor of the spec) is not part of the file. Its \<^verbatim>\<open>get_shell_index_from_id\<close> is
  taken to be the loop the plugin itself has under this name; its
  \<^verbatim>\<open>close_console(index=idx, from_ipython_client=True)\<close> terminates the kernel whose widget
  is at \<open>idx\<close>, which leaves the console's list, and with \<^verbatim>\<open>index=None\<close> closes the
  console's current tab \<open>ext_current\<close>; \<^verbatim>\<open>start_ipython_kernel(create_client=False)\<close>
  appends the widget of a new kernel, a new object, whose connection file
  \<^verbatim>\<open>set_ipython_kernel_attrs\<close> sets later. The new object takes the next free identity,
  which no client and no kernel widget has (\<open>init\<close> starts above the kernel widgets there
  are, and every identity given out moves it on).
\<close>

definition extconsole_get_shell_index_from_id :: "kernel_widget list \<Rightarrow> nat option \<Rightarrow> nat option" where
  "extconsole_get_shell_index_from_id ks shell_id =
     (case shell_id of None \<Rightarrow> None | Some i \<Rightarrow> index_from_id (map kernel_id ks) i 0)"

definition extconsole_close_console :: "int \<Rightarrow> nat option \<Rightarrow> kernel_widget list \<Rightarrow> kernel_widget list" where
  "extconsole_close_console ext_current idx ks =
     (case idx of
        Some i \<Rightarrow> take i ks @ drop (i + 1) ks
      | None \<Rightarrow>
          if 0 \<le> ext_current \<and> ext_current < int (length ks)
          then take (nat ext_current) ks @ drop (nat ext_current + 1) ks else ks)"

definition start_ipython_kernel :: "IPythonConsole \<Rightarrow> IPythonConsole" where
  "start_ipython_kernel s =
     s\<lparr>extconsole := extconsole s @ [\<lparr>kernel_id = next_id s, kernel_connection_file = None\<rparr>],
       next_id := next_id s + 1\<rparr>"

definition set_ipython_kernel_attrs :: "string \<Rightarrow> nat \<Rightarrow> kernel_widget list \<Rightarrow> kernel_widget list" where
  "set_ipython_kernel_attrs cf kw ks =
     map (\<lambda>k. if kernel_id k = kw then k\<lparr>kernel_connection_file := Some cf\<rparr> else k) ks"

subsection \<open>\<^verbatim>\<open>close_console\<close> and \<^verbatim>\<open>close_related_ipython_clients\<close>\<close>

text \<open>
  \<^verbatim>\<open>close_console(index, widget, force)\<close> calls \<^verbatim>\<open>close_related_ipython_clients\<close>, whose
  loop calls \<^verbatim>\<open>close_console(widget=clw)\<close> again for every related client. The recursion
  is written with a bound on its depth: \<open>None\<close> means the bound was reached. \<open>cur\<close> is
  what \<^verbatim>\<open>self.tabwidget.currentIndex()\<close> returns.

  The steps of \<^verbatim>\<open>close_console\<close>, in the source's order: return when there is no tab;
  find the index and, from it, the widget (\<^verbatim>\<open>None\<close> when the index names no tab); unless
  forced, look the widget's kernel up in the external console and, when it is there,
  ask (if the option says so) and possibly close the kernel and the related clients;
  then \<^verbatim>\<open>widget.close()\<close>, which raises on \<^verbatim>\<open>None\<close>, and the removal of tab and widget.
  The loop of \<^verbatim>\<open>close_related_ipython_clients\<close> runs over a copy of the list taken at its
  start; an exception of a nested call ends it.
\<close>

fun close_console_fuel ::
  "nat \<Rightarrow> env \<Rightarrow> int \<Rightarrow> int option \<Rightarrow> nat option \<Rightarrow> bool \<Rightarrow> IPythonConsole
     \<Rightarrow> (outcome \<times> IPythonConsole) option"
and close_related_loop ::
  "nat \<Rightarrow> env \<Rightarrow> int \<Rightarrow> IPythonClient \<Rightarrow> IPythonClient list \<Rightarrow> IPythonConsole
     \<Rightarrow> (outcome \<times> IPythonConsole) option" where
  "close_console_fuel 0 e cur index widget force s = None"
| "close_console_fuel (Suc n) e cur index widget force s =
     (if length (shellwidgets s) = 0 then Some (Returned, s)
      else
        (case tab_widget s
                (case widget of
                   Some w \<Rightarrow> indexOf s w
                 | None \<Rightarrow> (case index of None \<Rightarrow> cur | Some i \<Rightarrow> i)) of
           None \<Rightarrow> Some (Raised AttributeError, s)
         | Some client \<Rightarrow>
             (if force then Some (remove_tab_and_widget (client_id client) s)
              else
                (case extconsole_get_shell_index_from_id (extconsole s) (kernel_widget_id client) of
                   None \<Rightarrow> Some (remove_tab_and_widget (client_id client) s)
                 | Some idx \<Rightarrow>
                     (if ask_before_closing s \<and> answers e (questions s) = Cancel
                      then Some (Returned, s\<lparr>questions := questions s + 1\<rparr>)
                      else if ask_before_closing s \<and> answers e (questions s) \<noteq> Yes
                      then Some (remove_tab_and_widget (client_id client)
                                   (s\<lparr>questions := questions s + 1\<rparr>))
                      else
                        (case close_related_loop n e cur client (shellwidgets s)
                                (s\<lparr>questions := questions s + (if ask_before_closing s then 1 else 0),
                                   extconsole := extconsole_close_console 0 (Some idx) (extconsole s)\<rparr>) of
                           None \<Rightarrow> None
                         | Some (Returned, s') \<Rightarrow> Some (remove_tab_and_widget (client_id client) s')
                         | Some (r, s') \<Rightarrow> Some (r, s')))))))"
| "close_related_loop n e cur client [] s = Some (Returned, s)"
| "close_related_loop n e cur client (clw # clws) s =
     (if client_id clw \<noteq> client_id client \<and> connection_file clw = connection_file client
      then
        (case close_console_fuel n e cur None (Some (client_id clw)) False s of
           None \<Rightarrow> None
         | Some (Returned, s') \<Rightarrow> close_related_loop n e cur client clws s'
         | Some (r, s') \<Rightarrow> Some (r, s'))
      else close_related_loop n e cur client clws s)"

text \<open>
  Each nested call is made after a kernel widget has left the external console, so the
  depth never exceeds the number of its widgets by more than one.
\<close>

definition close_console ::
  "env \<Rightarrow> int \<Rightarrow> int option \<Rightarrow> nat option \<Rightarrow> bool \<Rightarrow> IPythonConsole
     \<Rightarrow> (outcome \<times> IPythonConsole) option" where
  "close_console e cur index widget force s =
     close_console_fuel (Suc (length (extconsole s))) e cur index widget force s"

text \<open>
  \<^verbatim>\<open>close_related_ipython_clients(client)\<close> as the loop over \<^verbatim>\<open>self.shellwidgets[:]\<close>.
\<close>

definition close_related_ipython_clients ::
  "env \<Rightarrow> int \<Rightarrow> IPythonClient \<Rightarrow> IPythonConsole \<Rightarrow> (outcome \<times> IPythonConsole) option" where
  "close_related_ipython_clients e cur client s =
     close_related_loop (Suc (length (extconsole s))) e cur client (shellwidgets s) s"

subsection \<open>Restarting a kernel\<close>

text \<open>
  \<^verbatim>\<open>self.tabwidget.setTabText(index, name)\<close>: the text of the tab at \<open>index\<close>; nothing
  happens when there is no such tab.
\<close>

definition setTabText :: "nat \<Rightarrow> string \<Rightarrow> IPythonConsole \<Rightarrow> IPythonConsole" where
  "setTabText index name s =
     (if index < length (shellwidgets s)
      then s\<lparr>shellwidgets := (shellwidgets s)[index := (shellwidgets s ! index)\<lparr>tab_text := name\<rparr>]\<rparr>
      else s)"

text \<open>
  \<^verbatim>\<open>rename_ipython_client_tab\<close>: when the connection file matches, the tab's text becomes
  \<^verbatim>\<open>_("Console") + " " + match.groups()[0] + '/' + chr(65)\<close>. An index of \<^verbatim>\<open>None\<close> is
  refused by \<^verbatim>\<open>setTabText\<close>, which takes an integer.
\<close>

definition rename_ipython_client_tab ::
  "string \<Rightarrow> nat \<Rightarrow> IPythonConsole \<Rightarrow> outcome \<times> IPythonConsole" where
  "rename_ipython_client_tab cf client_widget_id s =
     (case match_pid_file cf of
        None \<Rightarrow> (Returned, s)
      | Some pid \<Rightarrow>
          (case get_shell_index_from_id s client_widget_id of
             None \<Rightarrow> (Raised TypeError, s)
           | Some index \<Rightarrow>
               (Returned, setTabText index (''Console'' @ '' '' @ pid @ ''/'' @ [char_of (65::nat)]) s)))"

text \<open>
  \<^verbatim>\<open>create_new_kernel\<close>: the question; on \<^verbatim>\<open>Yes\<close> the external console starts a kernel,
  and the result names its widget, \<^verbatim>\<open>console.shellwidgets[-1]\<close>, whose signal
  \<^verbatim>\<open>create_ipython_client\<close> is connected to \<^verbatim>\<open>connect_to_new_kernel\<close>.
\<close>

definition create_new_kernel :: "env \<Rightarrow> IPythonConsole \<Rightarrow> nat option \<times> IPythonConsole" where
  "create_new_kernel e s =
     (if answers e (questions s) = Yes
      then (Some (next_id s), start_ipython_kernel (s\<lparr>questions := questions s + 1\<rparr>))
      else (None, s\<lparr>questions := questions s + 1\<rparr>))"

text \<open>
  The client with identity \<open>w\<close> gets the kernel widget id \<open>kw\<close>
  (\<^verbatim>\<open>shellwidget.kernel_widget_id = id(kernel_widget)\<close>).
\<close>

definition set_kernel_widget_id :: "nat \<Rightarrow> nat \<Rightarrow> IPythonClient list \<Rightarrow> IPythonClient list" where
  "set_kernel_widget_id w kw clients =
     map (\<lambda>c. if client_id c = w then c\<lparr>kernel_widget_id := Some kw\<rparr> else c) clients"

text \<open>
  \<^verbatim>\<open>connect_to_new_kernel(connection_file, kernel_widget)\<close>. The client is the one of the
  current tab, \<^verbatim>\<open>self.tabwidget.currentWidget()\<close>, \<^verbatim>\<open>None\<close> without a current tab. The old
  kernel's tab is closed in the external console, the new kernel widget gets its
  attributes, the client's \<^verbatim>\<open>kernel_widget_id\<close> is set to the new widget's identity and
  the tab is renamed. \<open>km\<close> tells whether
  \<^verbatim>\<open>self.ipython_app.create_kernel_manager(connection_file)\<close> raises.
\<close>

definition connect_to_new_kernel ::
  "py_error option \<Rightarrow> int \<Rightarrow> int \<Rightarrow> string \<Rightarrow> nat \<Rightarrow> IPythonConsole \<Rightarrow> outcome \<times> IPythonConsole" where
  "connect_to_new_kernel km cur ext_current cf kernel_widget s =
     (case tab_widget s cur of
        None \<Rightarrow> (Raised AttributeError, s)
      | Some shellwidget \<Rightarrow>
          (let idx = extconsole_get_shell_index_from_id (extconsole s) (kernel_widget_id shellwidget);
               s1 = s\<lparr>extconsole :=
                        set_ipython_kernel_attrs cf kernel_widget
                          (extconsole_close_console ext_current idx (extconsole s))\<rparr>
           in case km of
                Some err \<Rightarrow> (Raised err, s1)
              | None \<Rightarrow>
                  rename_ipython_client_tab cf (client_id shellwidget)
                    (s1\<lparr>shellwidgets :=
                          set_kernel_widget_id (client_id shellwidget) kernel_widget
                            (shellwidgets s1)\<rparr>)))"

subsection \<open>Interrupt requests and kernel deaths\<close>

text \<open>
  \<^verbatim>\<open>IPythonClient.interrupt_kernel\<close> asks the IPython widget to interrupt, which emits
  \<^verbatim>\<open>custom_interrupt_requested\<close>; the slot connected in \<^verbatim>\<open>register_client\<close> runs: the
  kernel widget's \<^verbatim>\<open>keyboard_interrupt\<close>, or the client's \<^verbatim>\<open>interrupt_message\<close>.
\<close>

definition interrupt_kernel :: "IPythonClient \<Rightarrow> IPythonConsole \<Rightarrow> IPythonConsole" where
  "interrupt_kernel c s =
     (case custom_interrupt_requested c of
        Kernel_keyboard_interrupt k \<Rightarrow> s\<lparr>keyboard_interrupts := keyboard_interrupts s @ [k]\<rparr>
      | Client_interrupt_message \<Rightarrow> interrupt_message c s)"

text \<open>
  Modelled from the spec: the emission of \<^verbatim>\<open>custom_restart_kernel_died\<close> is not part of
  the file, which only connects the signal of each client's IPython widget to that
  client's \<^verbatim>\<open>if_kernel_dies\<close>. Following the spec, the death of the kernel with widget id
  \<open>k\<close> is delivered once to every session bound to it, in the registry's order.
\<close>

definition sessionsForKernel :: "IPythonConsole \<Rightarrow> nat \<Rightarrow> IPythonClient list" where
  "sessionsForKernel s k = filter (\<lambda>c. kernel_widget_id c = Some k) (shellwidgets s)"

definition kernel_died :: "nat \<Rightarrow> IPythonConsole \<Rightarrow> IPythonConsole" where
  "kernel_died k s =
     s\<lparr>shellwidgets :=
         map (\<lambda>c. if kernel_widget_id c = Some k then if_kernel_dies c else c) (shellwidgets s)\<rparr>"

definition cannot_restart :: string where
  "cannot_restart = ''Kernel process is either remote or unspecified. Cannot restart.''"

text \<open>\<^verbatim>\<open>restart_message\<close>: an information box on the client.\<close>

definition restart_message :: "IPythonClient \<Rightarrow> IPythonConsole \<Rightarrow> IPythonConsole" where
  "restart_message c s = s\<lparr>informations := informations s @ [(client_id c, cannot_restart)]\<rparr>"

text \<open>
  \<^verbatim>\<open>IPythonClient.restart_kernel\<close> makes the IPython widget emit
  \<^verbatim>\<open>custom_restart_requested\<close>; the connected slot is the plugin's \<^verbatim>\<open>create_new_kernel\<close>
  or the client's \<^verbatim>\<open>restart_message\<close>.
\<close>

definition restart_kernel :: "env \<Rightarrow> IPythonClient \<Rightarrow> IPythonConsole \<Rightarrow> IPythonConsole" where
  "restart_kernel e c s =
     (case custom_restart_requested c of
        Plugin_create_new_kernel \<Rightarrow> snd (create_new_kernel e s)
      | Client_restart_message \<Rightarrow> restart_message c s)"

subsection \<open>Runs of the plugin\<close>

text \<open>
  The events that reach the plugin, each with what the user and the collaborators
  contribute to it. \<^verbatim>\<open>register_client\<close> is called by \<^verbatim>\<open>new_client\<close> only and is no event
  of its own. An interrupt or restart request names the client by its tab's index.
\<close>

datatype operation =
  New_client env "(string \<times> bool) list" "string option" "nat option"
  | Close_console env int "int option" "nat option" bool
  | Move_tab int int
  | Restart_kernel env nat
  | Connect_to_new_kernel "py_error option" int int string nat
  | Interrupt_kernel nat
  | Kernel_died nat

fun step :: "operation \<Rightarrow> IPythonConsole \<Rightarrow> IPythonConsole" where
  "step (New_client e typed given_file given_kwid) s = snd (new_client e typed given_file given_kwid s)"
| "step (Close_console e cur index widget force) s =
     (case close_console e cur index widget force s of None \<Rightarrow> s | Some (r, s') \<Rightarrow> s')"
| "step (Move_tab index_from index_to) s = snd (move_tab index_from index_to s)"
| "step (Restart_kernel e i) s =
     (if i < length (shellwidgets s) then restart_kernel e (shellwidgets s ! i) s else s)"
| "step (Connect_to_new_kernel km cur ext_current cf kernel_widget) s =
     snd (connect_to_new_kernel km cur ext_current cf kernel_widget s)"
| "step (Interrupt_kernel i) s =
     (if i < length (shellwidgets s) then interrupt_kernel (shellwidgets s ! i) s else s)"
| "step (Kernel_died k) s = kernel_died k s"

fun run :: "operation list \<Rightarrow> IPythonConsole \<Rightarrow> IPythonConsole" where
  "run [] s = s"
| "run (op # ops) s = run ops (step op s)"

subsection \<open>Concrete states\<close>

text \<open>
  States and environments on which the theorems below are evaluated: a user who
  answers \<^verbatim>\<open>Yes\<close> to every question, an IPython application that always connects and
  one that never does, two kernels of the external console, and a client built by hand.
\<close>

definition always_yes :: env where
  "always_yes = \<lparr>answers = (\<lambda>n. Yes), create_new_client = (\<lambda>cf. None)\<rparr>"

definition no_connection :: env where
  "no_connection = \<lparr>answers = (\<lambda>n. Yes), create_new_client = (\<lambda>cf. Some IOError)\<rparr>"

definition kernel_1 :: kernel_widget where
  "kernel_1 = \<lparr>kernel_id = 10, kernel_connection_file = Some ''kernel-1.json''\<rparr>"

definition kernel_2 :: kernel_widget where
  "kernel_2 = \<lparr>kernel_id = 20, kernel_connection_file = Some ''kernel-2.json''\<rparr>"

definition a_client :: "nat \<Rightarrow> string \<Rightarrow> nat option \<Rightarrow> string \<Rightarrow> IPythonClient" where
  "a_client i cf kwid name =
     \<lparr>client_id = i, connection_file = cf, kernel_widget_id = kwid, client_name = name,
      ipython_widget = i + 1, tab_text = ''Console '' @ name,
      custom_interrupt_requested = Client_interrupt_message,
      custom_restart_requested = Client_restart_message, plain_text = []\<rparr>"

definition two_on_kernel_1 :: IPythonConsole where
  "two_on_kernel_1 =
     (init [kernel_1, kernel_2] False 100)
       \<lparr>shellwidgets := [a_client 1 ''kernel-2.json'' (Some 20) ''2/A'',
                         a_client 3 ''kernel-1.json'' (Some 10) ''1/A'',
                         a_client 5 ''kernel-1.json'' (Some 10) ''1/B'']\<rparr>"

definition one_on_kernel_1 :: IPythonConsole where
  "one_on_kernel_1 =
     (init [kernel_1] True 100)\<lparr>shellwidgets := [a_client 1 ''kernel-1.json'' (Some 10) ''1/A'']\<rparr>"

text \<open>
  Two clients on the same connection file whose kernel widgets differ and are both in
  the external console, and a user who answers \<^verbatim>\<open>Yes\<close> to the first question and
  \<^verbatim>\<open>Cancel\<close> to every later one.
\<close>

definition two_kernels_one_file :: IPythonConsole where
  "two_kernels_one_file =
     (init [kernel_1, kernel_2] True 100)
       \<lparr>shellwidgets := [a_client 1 ''kernel-1.json'' (Some 10) ''1/B'',
                         a_client 3 ''kernel-1.json'' (Some 20) ''1/A'']\<rparr>"

definition yes_then_cancel :: env where
  "yes_then_cancel =
     \<lparr>answers = (\<lambda>n. if n = 0 then Yes else Cancel), create_new_client = (\<lambda>cf. None)\<rparr>"

text \<open>
  A run: two clients are opened on the first kernel's connection file, the second one's
  kernel is restarted (the new kernel announces \<^verbatim>\<open>kernel-7.json\<close>), and a third client
  is opened on the new kernel's connection file.
\<close>

definition restart_run :: "operation list" where
  "restart_run =
     [New_client always_yes [] (Some ''kernel-1.json'') None,
      New_client always_yes [] (Some ''kernel-1.json'') None,
      Restart_kernel always_yes 1,
      Connect_to_new_kernel None 1 0 ''kernel-7.json'' 104,
      New_client always_yes [] (Some ''kernel-7.json'') None]"

text \<open>
  A run: a client is opened on the connection file \<^verbatim>\<open>kernel-7.json\<close>, which no kernel of
  the external console has, a second one on the first kernel's connection file, and
  the second one's kernel is restarted; the new kernel announces \<^verbatim>\<open>kernel-7.json\<close>.
\<close>

definition rename_run :: "operation list" where
  "rename_run =
     [New_client always_yes [] (Some ''kernel-7.json'') None,
      New_client always_yes [] (Some ''kernel-1.json'') None,
      Restart_kernel always_yes 1,
      Connect_to_new_kernel None 1 0 ''kernel-7.json'' 104]"

text \<open>Three clients bound to the kernel widget 10 and one bound to the kernel widget 20.\<close>

definition three_on_kernel_1 :: IPythonConsole where
  "three_on_kernel_1 =
     (init [kernel_1, kernel_2] False 100)
       \<lparr>shellwidgets := [a_client 1 ''kernel-1.json'' (Some 10) ''1/A'',
                         a_client 3 ''kernel-2.json'' (Some 20) ''2/A'',
                         a_client 5 ''kernel-1.json'' (Some 10) ''1/B'',
                         a_client 7 ''kernel-1.json'' (Some 10) ''1/C'']\<rparr>"

subsection \<open>Object identities\<close>

text \<open>
  New objects get identities that no registered client and no kernel widget of the
  external console has: the identity of every one of them is below the next identity
  to give out, and no two registered clients share one.
\<close>

definition ids_well_formed :: "IPythonConsole \<Rightarrow> bool" where
  "ids_well_formed s =
     (distinct (map client_id (shellwidgets s)) \<and>
      list_all (\<lambda>c. client_id c < next_id s) (shellwidgets s) \<and>
      list_all (\<lambda>k. kernel_id k < next_id s) (extconsole s))"

text \<open>The identity of a client together with the slot of its interrupt signal.\<close>

definition interrupt_connection :: "IPythonClient \<Rightarrow> nat \<times> interrupt_slot" where
  "interrupt_connection c = (client_id c, custom_interrupt_requested c)"

text \<open>
  A client is opened on the first kernel's connection file while the second kernel is
  the external console's last widget, and then asks for an interrupt.
\<close>

definition interrupt_run :: "operation list" where
  "interrupt_run =
     [New_client always_yes [] (Some ''kernel-1.json'') None, Interrupt_kernel 0]"

text \<open>
  A client is opened on the connection file of the only kernel, its kernel is restarted
  (the new kernel announces \<^verbatim>\<open>kernel-7.json\<close>), and then it asks for an interrupt.
\<close>

definition interrupt_after_restart :: "operation list" where
  "interrupt_after_restart =
     [New_client always_yes [] (Some ''kernel-1.json'') None,
      Restart_kernel always_yes 0,
      Connect_to_new_kernel None 0 0 ''kernel-7.json'' 102,
      Interrupt_kernel 0]"

text \<open>The second client of \<open>restart_run\<close>, before and after the restart of its kernel.\<close>

definition restarted_client :: "nat option \<Rightarrow> string \<Rightarrow> IPythonClient" where
  "restarted_client kwid text =
     \<lparr>client_id = 103, connection_file = ''kernel-1.json'', kernel_widget_id = kwid,
      client_name = ''1/B'', ipython_widget = 102, tab_text = text,
      custom_interrupt_requested = Kernel_keyboard_interrupt 10,
      custom_restart_requested = Plugin_create_new_kernel, plain_text = []\<rparr>"

text \<open>
  The state after \<open>restart_run\<close> with the option \<^verbatim>\<open>ask_before_closing\<close> on, and the client
  that was opened on the new kernel at the end of that run.
\<close>

definition after_restart :: IPythonConsole where
  "after_restart = run restart_run (init [kernel_1] True 100)"

definition client_of_new_kernel :: IPythonClient where
  "client_of_new_kernel =
     \<lparr>client_id = 106, connection_file = ''kernel-7.json'', kernel_widget_id = Some 104,
      client_name = ''7/A'', ipython_widget = 105, tab_text = ''Console 7/A'',
      custom_interrupt_requested = Kernel_keyboard_interrupt 104,
      custom_restart_requested = Plugin_create_new_kernel, plain_text = []\<rparr>"

section \<open>Properties\<close>

subsection \<open>Looking a kernel's IPython widget up\<close>

lemma get_ipython_widget_loop_raises:
  "(get_ipython_widget_loop clws kwid = Inl ValueError) = (kwid \<notin> kernel_widget_id ` set clws)"
  by (induction clws) auto

lemma get_ipython_widget_loop_first:
  "kwid \<notin> kernel_widget_id ` set before \<Longrightarrow> kernel_widget_id clw = kwid \<Longrightarrow>
   get_ipython_widget_loop (before @ clw # after) kwid = Inr (ipython_widget clw)"
  by (induction before) auto

text \<open>
  Claim C10. \<^verbatim>\<open>get_ipython_widget\<close> is partial: when some registered client has the
  kernel widget id, the result is the IPython widget of the first such client in the
  registry's order; when no registered client has it, the call raises \<open>ValueError\<close> and
  returns nothing.
\<close>

theorem get_ipython_widget_partial:
  "(shellwidgets s = before @ clw # after \<and> kernel_widget_id clw = kwid \<and>
      kwid \<notin> kernel_widget_id ` set before
      \<longrightarrow> get_ipython_widget s kwid = Inr (ipython_widget clw)) \<and>
   (kwid \<notin> kernel_widget_id ` set (shellwidgets s)
      \<longrightarrow> get_ipython_widget s kwid = Inl ValueError) \<and>
   (kwid \<in> kernel_widget_id ` set (shellwidgets s)
      \<longrightarrow> (\<exists>before clw after. shellwidgets s = before @ clw # after \<and>
            kernel_widget_id clw = kwid \<and> kwid \<notin> kernel_widget_id ` set before \<and>
            get_ipython_widget s kwid = Inr (ipython_widget clw)))"
proof (intro conjI impI)
  assume "shellwidgets s = before @ clw # after \<and> kernel_widget_id clw = kwid \<and>
      kwid \<notin> kernel_widget_id ` set before"
  then show "get_ipython_widget s kwid = Inr (ipython_widget clw)"
    by (simp add: get_ipython_widget_def get_ipython_widget_loop_first)
next
  assume "kwid \<notin> kernel_widget_id ` set (shellwidgets s)"
  then show "get_ipython_widget s kwid = Inl ValueError"
    by (simp add: get_ipython_widget_def get_ipython_widget_loop_raises)
next
  assume "kwid \<in> kernel_widget_id ` set (shellwidgets s)"
  then obtain x where x: "x \<in> set (shellwidgets s)" "kernel_widget_id x = kwid" by auto
  then obtain before clw after where
    split: "shellwidgets s = before @ clw # after" "kernel_widget_id clw = kwid"
      "\<forall>y\<in>set before. kernel_widget_id y \<noteq> kwid"
    using split_list_first_prop [of "shellwidgets s" "\<lambda>c. kernel_widget_id c = kwid"] by blast
  then have "kwid \<notin> kernel_widget_id ` set before" by auto
  with split show "\<exists>before clw after. shellwidgets s = before @ clw # after \<and>
            kernel_widget_id clw = kwid \<and> kwid \<notin> kernel_widget_id ` set before \<and>
            get_ipython_widget s kwid = Inr (ipython_widget clw)"
    by (metis get_ipython_widget_def get_ipython_widget_loop_first)
qed

theorem get_ipython_widget_partial_witness:
  "get_ipython_widget two_on_kernel_1 (Some 10) = Inr 4 \<and>
   get_ipython_widget two_on_kernel_1 (Some 30) = Inl ValueError"
proof -
  have sw: "shellwidgets two_on_kernel_1 =
      [a_client 1 ''kernel-2.json'' (Some 20) ''2/A''] @
      a_client 3 ''kernel-1.json'' (Some 10) ''1/A'' # [a_client 5 ''kernel-1.json'' (Some 10) ''1/B'']"
    by (simp add: two_on_kernel_1_def init_def)
  have 1: "get_ipython_widget two_on_kernel_1 (Some 10) = Inr 4"
    using get_ipython_widget_partial [of two_on_kernel_1
        "[a_client 1 ''kernel-2.json'' (Some 20) ''2/A'']"
        "a_client 3 ''kernel-1.json'' (Some 10) ''1/A''"
        "[a_client 5 ''kernel-1.json'' (Some 10) ''1/B'']" "Some 10"] sw
    by (simp add: a_client_def)
  have 2: "get_ipython_widget two_on_kernel_1 (Some 30) = Inl ValueError"
    using get_ipython_widget_partial [of two_on_kernel_1 _ _ _ "Some 30"] sw
    by (simp add: a_client_def)
  from 1 2 show ?thesis by simp
qed

subsection \<open>The naming loop\<close>

declare naming_loop.simps [simp del]

lemma naming_loop_unfold:
  "naming_loop fragment clients kwid count =
     (if 256 \<le> 65 + count then Inl ValueError
      else
        (case find (\<lambda>clw. client_name clw = fragment @ ''/'' @ [char_of (65 + count)]) clients of
           Some clw \<Rightarrow> naming_loop fragment clients (kernel_widget_id clw) (count + 1)
         | None \<Rightarrow> Inr (fragment @ ''/'' @ [char_of (65 + count)], kwid)))"
  by (subst naming_loop.simps) (simp add: chr_def)

lemma naming_loop_induct [case_names 1]:
  fixes P :: "string \<Rightarrow> IPythonClient list \<Rightarrow> nat option \<Rightarrow> nat \<Rightarrow> bool"
  assumes "\<And>fragment clients kwid count.
      (\<And>clw. \<not> 256 \<le> 65 + count \<Longrightarrow>
         find (\<lambda>clw. client_name clw = fragment @ ''/'' @ [char_of (65 + count)]) clients = Some clw \<Longrightarrow>
         P fragment clients (kernel_widget_id clw) (count + 1)) \<Longrightarrow>
      P fragment clients kwid count"
  shows "P fragment clients kwid count"
proof (induction fragment clients kwid count rule: naming_loop.induct)
  case (1 fragment clients kwid count)
  show ?case
  proof (rule assms)
    fix clw
    assume a: "\<not> 256 \<le> 65 + count"
      "find (\<lambda>clw. client_name clw = fragment @ ''/'' @ [char_of (65 + count)]) clients = Some clw"
    then have "chr (65 + count) = Inr (char_of (65 + count))" by (simp add: chr_def)
    from "1" [OF this a(2)] show "P fragment clients (kernel_widget_id clw) (count + 1)" .
  qed
qed

lemma find_None_names:
  "(find (\<lambda>clw. client_name clw = name) clients = None) = (name \<notin> client_name ` set clients)"
  by (auto simp: find_None_iff)

lemma find_Some_names:
  "find (\<lambda>clw. client_name clw = name) clients = Some c \<Longrightarrow> name \<in> client_name ` set clients"
  by (auto simp: find_Some_iff)

lemma naming_loop_fresh:
  "naming_loop fragment clients kwid count = Inr (name, k) \<Longrightarrow> name \<notin> client_name ` set clients"
proof (induction fragment clients kwid count rule: naming_loop_induct)
  case (1 fragment clients kwid count)
  show ?case
  proof (cases "256 \<le> 65 + count")
    case True
    with "1.prems" show ?thesis by (simp add: naming_loop_unfold)
  next
    case False
    show ?thesis
    proof (cases "find (\<lambda>clw. client_name clw = fragment @ ''/'' @ [char_of (65 + count)]) clients")
      case None
      with False "1.prems" have "name = fragment @ ''/'' @ [char_of (65 + count)]"
        by (simp add: naming_loop_unfold)
      with None show ?thesis by (simp add: find_None_names)
    next
      case (Some clw)
      with False "1.prems" have "naming_loop fragment clients (kernel_widget_id clw) (count + 1) = Inr (name, k)"
        by (simp add: naming_loop_unfold)
      with "1.IH" [OF False Some] show ?thesis by simp
    qed
  qed
qed

lemma letter_inj:
  "i < 191 \<Longrightarrow> j < 191 \<Longrightarrow> (char_of (65 + i) :: char) = char_of (65 + j) \<Longrightarrow> i = (j::nat)"
  by (simp add: char_of_quasi_inj)

lemma naming_loop_returns:
  "\<exists>i. count \<le> i \<and> i < 191 \<and> fragment @ ''/'' @ [char_of (65 + i)] \<notin> client_name ` set clients
   \<Longrightarrow> \<exists>r. naming_loop fragment clients kwid count = Inr r"
proof (induction fragment clients kwid count rule: naming_loop_induct)
  case (1 fragment clients kwid count)
  from "1.prems" obtain i where i: "count \<le> i" "i < 191"
    "fragment @ ''/'' @ [char_of (65 + i)] \<notin> client_name ` set clients" by blast
  then have small: "\<not> 256 \<le> 65 + count" by simp
  show ?case
  proof (cases "find (\<lambda>clw. client_name clw = fragment @ ''/'' @ [char_of (65 + count)]) clients")
    case None
    with small show ?thesis by (simp add: naming_loop_unfold)
  next
    case (Some clw)
    then have "fragment @ ''/'' @ [char_of (65 + count)] \<in> client_name ` set clients"
      by (rule find_Some_names)
    with i have "i \<noteq> count" by auto
    with i have "\<exists>i. count + 1 \<le> i \<and> i < 191 \<and>
        fragment @ ''/'' @ [char_of (65 + i)] \<notin> client_name ` set clients"
      by (intro exI [of _ i]) simp
    from "1.IH" [OF small Some this] Some small show ?thesis
      by (simp add: naming_loop_unfold)
  qed
qed

lemma naming_loop_raises:
  "\<forall>i. count \<le> i \<and> i < 191 \<longrightarrow> fragment @ ''/'' @ [char_of (65 + i)] \<in> client_name ` set clients
   \<Longrightarrow> naming_loop fragment clients kwid count = Inl ValueError"
proof (induction fragment clients kwid count rule: naming_loop_induct)
  case (1 fragment clients kwid count)
  show ?case
  proof (cases "256 \<le> 65 + count")
    case True
    then show ?thesis by (simp add: naming_loop_unfold)
  next
    case False
    then have "count < 191" by simp
    with "1.prems" have "fragment @ ''/'' @ [char_of (65 + count)] \<in> client_name ` set clients"
      by simp
    then obtain clw where
      Some: "find (\<lambda>clw. client_name clw = fragment @ ''/'' @ [char_of (65 + count)]) clients = Some clw"
      using find_None_names [of "fragment @ ''/'' @ [char_of (65 + count)]" clients] by fastforce
    from "1.prems" have "\<forall>i. count + 1 \<le> i \<and> i < 191 \<longrightarrow>
        fragment @ ''/'' @ [char_of (65 + i)] \<in> client_name ` set clients" by simp
    from "1.IH" [OF False Some this] False Some show ?thesis
      by (simp add: naming_loop_unfold)
  qed
qed

lemma free_letter:
  assumes "length clients < 191"
  shows "\<exists>i::nat. i < 191 \<and> fragment @ ''/'' @ [char_of (65 + i)] \<notin> client_name ` set clients"
proof (rule ccontr)
  assume "\<not> ?thesis"
  then have sub: "(\<lambda>i. fragment @ ''/'' @ [char_of (65 + i)]) ` {..<191::nat} \<subseteq> client_name ` set clients"
    by auto
  have inj: "inj_on (\<lambda>i. fragment @ ''/'' @ [char_of (65 + i) :: char]) {..<191::nat}"
    by (rule inj_onI) (auto dest: letter_inj)
  have "card ((\<lambda>i. fragment @ ''/'' @ [char_of (65 + i)]) ` {..<191::nat}) = 191"
    using card_image [OF inj] by simp
  moreover have "card ((\<lambda>i. fragment @ ''/'' @ [char_of (65 + i)]) ` {..<191::nat})
      \<le> card (client_name ` set clients)"
    by (rule card_mono [OF _ sub]) simp
  moreover have "card (client_name ` set clients) \<le> length clients"
    by (rule order_trans [OF card_image_le card_length]) simp
  ultimately show False using assms by simp
qed

lemma letter_A: "char_of (65::nat) = CHR ''A''" by code_simp
lemma letter_B: "char_of (66::nat) = CHR ''B''" by code_simp

text \<open>
  Claim C3. The naming loop of \<^verbatim>\<open>new_client\<close>, started at the letter \<open>A\<close>: for the
  fragment \<^verbatim>\<open>abcd\<close> and no client it gives \<^verbatim>\<open>abcd/A\<close> and leaves the kernel widget id
  \<^verbatim>\<open>None\<close>; when a client is named \<^verbatim>\<open>abcd/A\<close> and none \<^verbatim>\<open>abcd/B\<close>, it gives
  \<^verbatim>\<open>abcd/B\<close> and the kernel widget id of the (first) client named \<^verbatim>\<open>abcd/A\<close>; for every
  fragment and every list of clients a name it returns is the name of no client; and
  it does return a name whenever there are fewer than 191 clients (the letters run from
  \<^verbatim>\<open>chr(65)\<close> to \<^verbatim>\<open>chr(255)\<close>).
\<close>

theorem naming_loop_allocates:
  "naming_loop ''abcd'' [] None 0 = Inr (''abcd/A'', None) \<and>
   (find (\<lambda>clw. client_name clw = ''abcd/A'') clients = Some c \<and>
      ''abcd/B'' \<notin> client_name ` set clients
      \<longrightarrow> naming_loop ''abcd'' clients kwid 0 = Inr (''abcd/B'', kernel_widget_id c)) \<and>
   (naming_loop fragment clients kwid 0 = Inr (name, k) \<longrightarrow> name \<notin> client_name ` set clients) \<and>
   (length clients < 191 \<longrightarrow> (\<exists>name k. naming_loop fragment clients kwid 0 = Inr (name, k)))"
proof (intro conjI impI)
  show "naming_loop ''abcd'' [] None 0 = Inr (''abcd/A'', None)"
    by (simp add: naming_loop_unfold letter_A)
next
  assume a: "find (\<lambda>clw. client_name clw = ''abcd/A'') clients = Some c \<and>
      ''abcd/B'' \<notin> client_name ` set clients"
  then have none: "find (\<lambda>clw. client_name clw = ''abcd/B'') clients = None"
    by (simp add: find_None_names)
  have "naming_loop ''abcd'' clients kwid 0 = naming_loop ''abcd'' clients (kernel_widget_id c) 1"
    using a by (subst naming_loop_unfold) (simp add: letter_A)
  also have "\<dots> = Inr (''abcd/B'', kernel_widget_id c)"
    using none by (subst naming_loop_unfold) (simp add: letter_B)
  finally show "naming_loop ''abcd'' clients kwid 0 = Inr (''abcd/B'', kernel_widget_id c)" .
next
  assume "naming_loop fragment clients kwid 0 = Inr (name, k)"
  then show "name \<notin> client_name ` set clients" by (rule naming_loop_fresh)
next
  assume "length clients < 191"
  from free_letter [OF this, of fragment] have
    "\<exists>i::nat. 0 \<le> i \<and> i < 191 \<and> fragment @ ''/'' @ [char_of (65 + i)] \<notin> client_name ` set clients"
    by auto
  from naming_loop_returns [OF this] show "\<exists>name k. naming_loop fragment clients kwid 0 = Inr (name, k)"
    by auto
qed

theorem naming_loop_allocates_witness:
  "naming_loop ''abcd'' [a_client 1 ''kernel-abcd.json'' (Some 10) ''abcd/A''] None 0
     = Inr (''abcd/B'', Some 10) \<and>
   ''abcd/B'' \<notin> client_name ` set [a_client 1 ''kernel-abcd.json'' (Some 10) ''abcd/A''] \<and>
   match_connection_file ''kernel-abcd.json'' = Some ''abcd''"
proof -
  have "naming_loop ''abcd'' [a_client 1 ''kernel-abcd.json'' (Some 10) ''abcd/A''] None 0
     = Inr (''abcd/B'', Some 10)"
    using naming_loop_allocates [of "[a_client 1 ''kernel-abcd.json'' (Some 10) ''abcd/A'']"
        "a_client 1 ''kernel-abcd.json'' (Some 10) ''abcd/A''" None]
    by (simp add: a_client_def)
  moreover have "match_connection_file ''kernel-abcd.json'' = Some ''abcd''"
    by (simp add: match_connection_file_def greedy_plus_def hexdash_def dot_json_def)
  ultimately show ?thesis by (simp add: a_client_def)
qed

subsection \<open>Resolving a typed identifier\<close>

lemma backtrack_None:
  "(backtrack cont s k = None) = (\<forall>j. 1 \<le> j \<and> j \<le> k \<longrightarrow> \<not> cont (drop j s))"
proof (induction k)
  case 0
  show ?case by simp
next
  case (Suc k)
  show ?case
  proof (cases "cont (drop (Suc k) s)")
    case True
    then show ?thesis by auto
  next
    case False
    have "(\<forall>j. 1 \<le> j \<and> j \<le> Suc k \<longrightarrow> \<not> cont (drop j s)) =
          (\<forall>j. 1 \<le> j \<and> j \<le> k \<longrightarrow> \<not> cont (drop j s))"
      using False by (auto simp: le_Suc_eq)
    with False Suc show ?thesis by simp
  qed
qed

lemma backtrack_Some:
  "backtrack cont s k = Some r \<Longrightarrow> \<exists>j. 1 \<le> j \<and> j \<le> k \<and> r = take j s \<and> cont (drop j s)"
proof (induction k)
  case 0
  then show ?case by simp
next
  case (Suc k)
  show ?case
  proof (cases "cont (drop (Suc k) s)")
    case True
    with Suc.prems have "r = take (Suc k) s" by simp
    with True show ?thesis by (intro exI [of _ "Suc k"]) simp
  next
    case False
    with Suc.prems have "backtrack cont s k = Some r" by simp
    from Suc.IH [OF this] show ?thesis by (auto simp: le_Suc_eq)
  qed
qed

lemma run_length:
  "(j \<le> length (takeWhile cls s)) = (j \<le> length s \<and> (\<forall>c\<in>set (take j s). cls c))"
proof
  assume j: "j \<le> length (takeWhile cls s)"
  have "take j s = take j (takeWhile cls s @ dropWhile cls s)" by simp
  also have "\<dots> = take j (takeWhile cls s) @ take (j - length (takeWhile cls s)) (dropWhile cls s)"
    by (rule take_append)
  also have "\<dots> = take j (takeWhile cls s)" using j by simp
  finally have "take j s = take j (takeWhile cls s)" .
  then have "\<forall>c\<in>set (take j s). cls c"
    by (metis in_set_takeD set_takeWhileD)
  moreover have "j \<le> length s" using j length_takeWhile_le [of cls s] by (rule order_trans)
  ultimately show "j \<le> length s \<and> (\<forall>c\<in>set (take j s). cls c)" by simp
next
  assume a: "j \<le> length s \<and> (\<forall>c\<in>set (take j s). cls c)"
  have "takeWhile cls s = takeWhile cls (take j s @ drop j s)" by simp
  also have "\<dots> = take j s @ takeWhile cls (drop j s)"
    using a by (intro takeWhile_append2) simp
  finally have "length (takeWhile cls s) = length (take j s) + length (takeWhile cls (drop j s))"
    by simp
  with a show "j \<le> length (takeWhile cls s)" by simp
qed

lemma greedy_plus_None:
  "(greedy_plus cls cont s = None) =
   (\<forall>fragment rest. s = fragment @ rest \<and> list_all cls fragment \<and> cont rest \<longrightarrow> fragment = [])"
proof
  assume none: "greedy_plus cls cont s = None"
  show "\<forall>fragment rest. s = fragment @ rest \<and> list_all cls fragment \<and> cont rest \<longrightarrow> fragment = []"
  proof (intro allI impI, rule ccontr)
    fix fragment rest
    assume a: "s = fragment @ rest \<and> list_all cls fragment \<and> cont rest" and ne: "fragment \<noteq> []"
    then have "length fragment \<le> length (takeWhile cls s)"
      by (simp add: run_length list_all_iff)
    moreover have "1 \<le> length fragment" using ne by (cases fragment) auto
    moreover have "cont (drop (length fragment) s)" using a by simp
    ultimately show False using none by (auto simp: greedy_plus_def backtrack_None)
  qed
next
  assume all: "\<forall>fragment rest. s = fragment @ rest \<and> list_all cls fragment \<and> cont rest \<longrightarrow> fragment = []"
  show "greedy_plus cls cont s = None"
  proof (rule ccontr)
    assume "greedy_plus cls cont s \<noteq> None"
    then obtain j where j: "1 \<le> j" "j \<le> length (takeWhile cls s)" "cont (drop j s)"
      by (auto simp: greedy_plus_def backtrack_None)
    then have "j \<le> length s" "list_all cls (take j s)"
      by (simp_all add: run_length list_all_iff)
    with j all have "take j s = []"
      by (metis append_take_drop_id)
    with j \<open>j \<le> length s\<close> show False by auto
  qed
qed

lemma greedy_plus_Some:
  assumes "greedy_plus cls cont s = Some fragment"
  shows "fragment \<noteq> [] \<and> list_all cls fragment \<and> (\<exists>rest. s = fragment @ rest \<and> cont rest)"
proof -
  from assms obtain j where j: "1 \<le> j" "j \<le> length (takeWhile cls s)"
      "fragment = take j s" "cont (drop j s)"
    by (auto simp: greedy_plus_def dest: backtrack_Some)
  then have "j \<le> length s" "list_all cls (take j s)"
    by (simp_all add: run_length list_all_iff)
  with j show ?thesis by (auto intro: exI [of _ "drop j s"])
qed

lemma match_typed_None:
  "(match_typed cf = None) =
   (\<forall>prefix fragment rest.
      cf = prefix @ fragment @ rest \<and> (prefix = ''kernel-'' \<or> prefix = []) \<and>
      list_all hexdash fragment \<and> (dot_json rest \<or> at_end rest) \<longrightarrow> fragment = [])"
  (is "?L = ?R")
proof
  assume L: ?L
  have bare: "greedy_plus hexdash (\<lambda>r. dot_json r \<or> at_end r) cf = None"
    using L by (auto simp: match_typed_def Let_def split: option.splits if_splits)
  have pre: "take 7 cf = ''kernel-'' \<Longrightarrow>
      greedy_plus hexdash (\<lambda>r. dot_json r \<or> at_end r) (drop 7 cf) = None"
    using L by (auto simp: match_typed_def Let_def split: option.splits if_splits)
  show ?R
  proof (intro allI impI)
    fix prefix fragment rest
    assume a: "cf = prefix @ fragment @ rest \<and> (prefix = ''kernel-'' \<or> prefix = []) \<and>
      list_all hexdash fragment \<and> (dot_json rest \<or> at_end rest)"
    show "fragment = []"
    proof (cases "prefix = []")
      case True
      with a bare show ?thesis by (simp add: greedy_plus_None)
    next
      case False
      with a have p: "prefix = ''kernel-''" by simp
      with a have "take 7 cf = ''kernel-''" "drop 7 cf = fragment @ rest" by simp_all
      with pre a show ?thesis by (simp add: greedy_plus_None)
    qed
  qed
next
  assume R: ?R
  have bare: "greedy_plus hexdash (\<lambda>r. dot_json r \<or> at_end r) cf = None"
    unfolding greedy_plus_None using R by (metis append_Nil)
  have pre: "greedy_plus hexdash (\<lambda>r. dot_json r \<or> at_end r) (drop 7 cf) = None"
    if t: "take 7 cf = ''kernel-''"
  proof -
    have cf: "cf = ''kernel-'' @ drop 7 cf" using t append_take_drop_id [of 7 cf] by simp
    show ?thesis
      unfolding greedy_plus_None
    proof (intro allI impI)
      fix fragment rest
      assume a: "drop 7 cf = fragment @ rest \<and> list_all hexdash fragment \<and> (dot_json rest \<or> at_end rest)"
      with cf have "cf = ''kernel-'' @ fragment @ rest" by simp
      with R a show "fragment = []" by blast
    qed
  qed
  show ?L using bare pre by (simp add: match_typed_def Let_def)
qed

lemma match_typed_Some:
  "match_typed cf = Some kernel_num \<Longrightarrow> kernel_num \<noteq> [] \<and> list_all hexdash kernel_num"
  by (auto simp: match_typed_def Let_def split: option.splits if_splits dest: greedy_plus_Some)

lemma new_client_typing_fails:
  "ask_connection_file typed = Failed err \<Longrightarrow> new_client e typed None given_kwid s = (Raised err, s)"
  by (simp add: new_client_def)

text \<open>
  Claim C2. The identifier typed into the dialog of \<^verbatim>\<open>new_client\<close> is resolved to a
  connection file: \<^verbatim>\<open>3764\<close>, \<^verbatim>\<open>kernel-3764.json\<close> and \<^verbatim>\<open>kernel-3764\<close> all give
  \<^verbatim>\<open>kernel-3764.json\<close>. The empty string, and every text that does not begin with a
  nonempty run of hexadecimal digits and hyphens (after an optional \<^verbatim>\<open>kernel-\<close>) that
  \<^verbatim>\<open>.json\<close> or the end of the text follows, is refused: the code's form of the spec's
  \<open>InvalidIdentifier\<close> is the \<open>AttributeError\<close> that \<^verbatim>\<open>match.groups()\<close> raises on no match.
  Every other text is resolved to \<^verbatim>\<open>kernel-<fragment>.json\<close>. When the resolution fails,
  \<^verbatim>\<open>new_client\<close> ends with that exception and the plugin's state, the registry and the
  external console's kernels included, is what it was.
\<close>

theorem ask_connection_file_resolves:
  "ask_connection_file ((''3764'', True) # later) = Accepted ''kernel-3764.json'' \<and>
   ask_connection_file ((''kernel-3764.json'', True) # later) = Accepted ''kernel-3764.json'' \<and>
   ask_connection_file ((''kernel-3764'', True) # later) = Accepted ''kernel-3764.json'' \<and>
   ask_connection_file (('''', True) # later) = Failed AttributeError \<and>
   ((\<forall>prefix fragment rest.
       cf = prefix @ fragment @ rest \<and> (prefix = ''kernel-'' \<or> prefix = []) \<and>
       list_all hexdash fragment \<and> (dot_json rest \<or> at_end rest) \<longrightarrow> fragment = [])
     \<longrightarrow> ask_connection_file ((cf, True) # later) = Failed AttributeError) \<and>
   (ask_connection_file ((cf, True) # later) \<noteq> Failed AttributeError
     \<longrightarrow> (\<exists>fragment. fragment \<noteq> [] \<and> list_all hexdash fragment \<and>
           ask_connection_file ((cf, True) # later) = Accepted (''kernel-'' @ fragment @ ''.json''))) \<and>
   (ask_connection_file typed = Failed err
     \<longrightarrow> new_client e typed None given_kwid s = (Raised err, s))"
proof (intro conjI impI)
  show "ask_connection_file ((''3764'', True) # later) = Accepted ''kernel-3764.json''"
    by (simp add: match_typed_def greedy_plus_def hexdash_def dot_json_def at_end_def)
  show "ask_connection_file ((''kernel-3764.json'', True) # later) = Accepted ''kernel-3764.json''"
    by (simp add: match_typed_def greedy_plus_def hexdash_def dot_json_def at_end_def)
  show "ask_connection_file ((''kernel-3764'', True) # later) = Accepted ''kernel-3764.json''"
    by (simp add: match_typed_def greedy_plus_def hexdash_def dot_json_def at_end_def)
  show "ask_connection_file (('''', True) # later) = Failed AttributeError"
    by (simp add: match_typed_def greedy_plus_def hexdash_def dot_json_def at_end_def)
next
  assume "\<forall>prefix fragment rest.
       cf = prefix @ fragment @ rest \<and> (prefix = ''kernel-'' \<or> prefix = []) \<and>
       list_all hexdash fragment \<and> (dot_json rest \<or> at_end rest) \<longrightarrow> fragment = []"
  then have "match_typed cf = None" by (simp only: match_typed_None)
  then show "ask_connection_file ((cf, True) # later) = Failed AttributeError" by simp
next
  assume a: "ask_connection_file ((cf, True) # later) \<noteq> Failed AttributeError"
  then obtain kernel_num where k: "match_typed cf = Some kernel_num"
    by (cases "match_typed cf") auto
  from match_typed_Some [OF k] k
  show "\<exists>fragment. fragment \<noteq> [] \<and> list_all hexdash fragment \<and>
           ask_connection_file ((cf, True) # later) = Accepted (''kernel-'' @ fragment @ ''.json'')"
    by (intro exI [of _ kernel_num]) simp
next
  assume "ask_connection_file typed = Failed err"
  then show "new_client e typed None given_kwid s = (Raised err, s)"
    by (rule new_client_typing_fails)
qed

theorem ask_connection_file_resolves_witness:
  "new_client always_yes [(''kernel-'', True)] None None two_on_kernel_1
     = (Raised AttributeError, two_on_kernel_1) \<and>
   new_client always_yes [('''', True)] None None two_on_kernel_1
     = (Raised AttributeError, two_on_kernel_1) \<and>
   ask_connection_file [(''3764'', True)] = Accepted ''kernel-3764.json''"
proof -
  have none: "match_typed ''kernel-'' = None"
    by (simp add: match_typed_def greedy_plus_def hexdash_def dot_json_def at_end_def)
  have f1: "ask_connection_file [(''kernel-'', True)] = Failed AttributeError"
    using ask_connection_file_resolves [of "[]" "''kernel-''"] none
    unfolding match_typed_None by blast
  have f2: "ask_connection_file [('''', True)] = Failed AttributeError"
    using ask_connection_file_resolves [of "[]"] by simp
  from f1 f2 ask_connection_file_resolves [of "[]" _ "[(''kernel-'', True)]" AttributeError always_yes None two_on_kernel_1]
    ask_connection_file_resolves [of "[]" _ "[('''', True)]" AttributeError always_yes None two_on_kernel_1]
    ask_connection_file_resolves [of "[]"]
  show ?thesis by simp
qed

subsection \<open>A failed connection adds no session\<close>

lemma register_client_raises:
  "register_client e cf kwid name s = (Raised err, s') \<Longrightarrow> s' = s \<and> create_new_client e cf = Some err"
  by (auto simp: register_client_def Let_def split: option.splits)

lemma register_client_fails:
  "create_new_client e cf = Some err \<Longrightarrow> register_client e cf kwid name s = (Raised err, s)"
  by (simp add: register_client_def)

text \<open>
  Claim C6. Let \<^verbatim>\<open>new_client\<close> be called in any state, for the connection file \<open>cf\<close>
  (given, or resolved from the dialog), and let the IPython application fail to connect
  to it: \<^verbatim>\<open>create_new_client\<close> raises. Then no session is added: the registry after the
  call is the registry before it, in number and in content, and so are the external
  console's kernels. The state is unchanged altogether, but for the critical box
  \<^verbatim>\<open>Unable to connect\<close> that reports an \<open>IOError\<close> or \<open>UnboundLocalError\<close>, the two
  exceptions \<^verbatim>\<open>new_client\<close> catches (the spec's \<open>ConnectFailure\<close>).
\<close>

theorem new_client_connect_failure:
  "(case given_file of None \<Rightarrow> ask_connection_file typed | Some f \<Rightarrow> Accepted f) = Accepted cf \<and>
   create_new_client e cf = Some err \<and>
   new_client e typed given_file given_kwid s = (r, s')
   \<longrightarrow> shellwidgets s' = shellwidgets s \<and> length (shellwidgets s') = length (shellwidgets s) \<and>
       extconsole s' = extconsole s \<and>
       (s' = s \<or>
        ((err = IOError \<or> err = UnboundLocalError) \<and> r = Returned \<and>
         s' = s\<lparr>criticals := criticals s @ [unable_to_connect cf]\<rparr>))"
proof (intro impI)
  assume a: "(case given_file of None \<Rightarrow> ask_connection_file typed | Some f \<Rightarrow> Accepted f) = Accepted cf \<and>
   create_new_client e cf = Some err \<and>
   new_client e typed given_file given_kwid s = (r, s')"
  then have acc: "(case given_file of None \<Rightarrow> ask_connection_file typed | Some f \<Rightarrow> Accepted f) = Accepted cf"
    and err: "create_new_client e cf = Some err"
    and nc: "new_client e typed given_file given_kwid s = (r, s')" by simp_all
  have "s' = s \<or>
        ((err = IOError \<or> err = UnboundLocalError) \<and> r = Returned \<and>
         s' = s\<lparr>criticals := criticals s @ [unable_to_connect cf]\<rparr>)"
  proof (cases "match_connection_file cf")
    case None
    with acc nc show ?thesis by (simp add: new_client_def)
  next
    case (Some fragment)
    show ?thesis
    proof (cases "naming_loop fragment (get_clients s) given_kwid 0")
      case (Inl e')
      with Some acc nc show ?thesis by (simp add: new_client_def)
    next
      case (Inr p)
      obtain name kwid where p: "p = (name, kwid)" by (cases p)
      with Inr Some acc nc register_client_fails [OF err]
      show ?thesis by (auto simp: new_client_def Let_def split: if_splits)
    qed
  qed
  then show "shellwidgets s' = shellwidgets s \<and> length (shellwidgets s') = length (shellwidgets s) \<and>
       extconsole s' = extconsole s \<and>
       (s' = s \<or>
        ((err = IOError \<or> err = UnboundLocalError) \<and> r = Returned \<and>
         s' = s\<lparr>criticals := criticals s @ [unable_to_connect cf]\<rparr>))" by auto
qed

lemma letter_C: "char_of (67::nat) = CHR ''C''" by code_simp

theorem new_client_connect_failure_witness:
  "new_client no_connection [] (Some ''kernel-1.json'') None two_on_kernel_1
     = (Returned, two_on_kernel_1\<lparr>criticals := [unable_to_connect ''kernel-1.json'']\<rparr>) \<and>
   length (shellwidgets (snd (new_client no_connection [] (Some ''kernel-1.json'') None two_on_kernel_1))) = 3"
proof -
  have m: "match_connection_file ''kernel-1.json'' = Some ''1''"
    by (simp add: match_connection_file_def greedy_plus_def hexdash_def dot_json_def)
  have n: "naming_loop ''1'' (get_clients two_on_kernel_1) None 0 = Inr (''1/C'', Some 10)"
    by (simp add: naming_loop_unfold get_clients_def two_on_kernel_1_def init_def a_client_def
        letter_A letter_B letter_C)
  have nc: "new_client no_connection [] (Some ''kernel-1.json'') None two_on_kernel_1
     = (Returned, two_on_kernel_1\<lparr>criticals := criticals two_on_kernel_1 @ [unable_to_connect ''kernel-1.json'']\<rparr>)"
    using m n by (simp add: new_client_def register_client_def no_connection_def)
  have c: "criticals two_on_kernel_1 = []" by (simp add: two_on_kernel_1_def init_def)
  from new_client_connect_failure [where given_file = "Some ''kernel-1.json''" and typed = "[]"
      and cf = "''kernel-1.json''" and e = no_connection and err = IOError and given_kwid = None
      and s = two_on_kernel_1 and r = Returned
      and s' = "two_on_kernel_1\<lparr>criticals := criticals two_on_kernel_1 @ [unable_to_connect ''kernel-1.json'']\<rparr>"] nc
  have "length (shellwidgets (two_on_kernel_1\<lparr>criticals := criticals two_on_kernel_1 @ [unable_to_connect ''kernel-1.json'']\<rparr>))
      = length (shellwidgets two_on_kernel_1)"
    by (simp add: no_connection_def)
  moreover have "length (shellwidgets two_on_kernel_1) = 3"
    by (simp add: two_on_kernel_1_def init_def)
  ultimately show ?thesis using nc c by simp
qed

subsection \<open>Closing a client\<close>

lemma index_from_id_None: "(index_from_id ids w k = None) = (w \<notin> set ids)"
  by (induction ids arbitrary: k) auto

lemma index_from_id_Some:
  "index_from_id ids w k = Some i \<Longrightarrow>
   k \<le> i \<and> i - k < length ids \<and> ids ! (i - k) = w \<and> w \<notin> set (take (i - k) ids)"
proof (induction ids arbitrary: k)
  case Nil
  then show ?case by simp
next
  case (Cons a ids)
  show ?case
  proof (cases "a = w")
    case True
    with Cons.prems show ?thesis by simp
  next
    case False
    with Cons.prems have "index_from_id ids w (k + 1) = Some i" by simp
    from Cons.IH [OF this] have ih: "k + 1 \<le> i" "i - (k + 1) < length ids"
      "ids ! (i - (k + 1)) = w" "w \<notin> set (take (i - (k + 1)) ids)" by simp_all
    then have "i - k = Suc (i - (k + 1))" by simp
    with ih False show ?thesis by simp
  qed
qed

lemma tab_widget_indexOf:
  assumes "w \<in> client_id ` set (shellwidgets s)"
  shows "\<exists>c. tab_widget s (indexOf s w) = Some c \<and> client_id c = w \<and> c \<in> set (shellwidgets s)"
proof -
  from assms obtain i where i: "index_from_id (map client_id (shellwidgets s)) w 0 = Some i"
    using index_from_id_None [of "map client_id (shellwidgets s)" w 0] by auto
  from index_from_id_Some [OF this] have "i < length (shellwidgets s)"
    "client_id (shellwidgets s ! i) = w" by auto
  with i show ?thesis
    by (simp add: indexOf_def get_shell_index_from_id_def tab_widget_def)
qed

lemma tab_widget_indexOf_None:
  "w \<notin> client_id ` set (shellwidgets s) \<Longrightarrow> tab_widget s (indexOf s w) = None"
  using index_from_id_None [of "map client_id (shellwidgets s)" w 0]
  by (simp add: indexOf_def get_shell_index_from_id_def tab_widget_def)

lemma tab_widget_member: "tab_widget s i = Some c \<Longrightarrow> c \<in> set (shellwidgets s)"
  by (auto simp: tab_widget_def split: if_splits)

lemma length_remove_widget:
  "w \<in> client_id ` set clws \<Longrightarrow> length (remove_widget w clws) + 1 = length clws"
  by (induction clws) auto

lemma filter_remove_widget:
  "filter (\<lambda>x. client_id x \<noteq> w) (remove_widget w clws) = filter (\<lambda>x. client_id x \<noteq> w) clws"
  by (induction clws) auto

lemma remove_widget_distinct:
  "distinct (map client_id clws) \<Longrightarrow> remove_widget w clws = filter (\<lambda>x. client_id x \<noteq> w) clws"
proof (induction clws)
  case Nil
  show ?case by simp
next
  case (Cons a clws)
  from Cons.prems have "client_id a \<notin> client_id ` set clws" by simp
  then have "\<forall>x\<in>set clws. client_id x \<noteq> client_id a" by (metis image_eqI)
  then have "client_id a = w \<Longrightarrow> filter (\<lambda>x. client_id x \<noteq> w) clws = clws"
    by (auto intro!: filter_True)
  with Cons show ?case by simp
qed

lemma close_console_forced:
  assumes "tab_widget s
             (case widget of Some w \<Rightarrow> indexOf s w
              | None \<Rightarrow> (case index of None \<Rightarrow> cur | Some i \<Rightarrow> i)) = Some c"
  shows "close_console e cur index widget True s =
         Some (Returned, s\<lparr>shellwidgets := remove_widget (client_id c) (shellwidgets s)\<rparr>)"
proof -
  from assms have c: "c \<in> set (shellwidgets s)" by (rule tab_widget_member)
  then have "length (shellwidgets s) \<noteq> 0" by auto
  moreover from c have "client_id c \<in> set (map client_id (shellwidgets s))" by auto
  ultimately show ?thesis using assms
    by (simp add: close_console_def remove_tab_and_widget_def)
qed

text \<open>
  Claim C4, as the code has it. For every state and every registered client,
  \<^verbatim>\<open>close_console(widget=client, force=True)\<close> returns with the client removed from the
  registry and nothing else changed: its entry (the first that is this object) leaves
  the sequence, which gets one shorter and keeps every other client in place; no
  question is asked; the external console is not touched, so no kernel is terminated,
  whether or not the client was the last one of its kernel; no related client is closed.
  The test \<^verbatim>\<open>if not force and ...\<close> skips the whole block that asks, closes the kernel
  and closes the related clients.
\<close>

theorem close_console_force:
  "c \<in> set (shellwidgets s) \<longrightarrow>
     close_console e cur index (Some (client_id c)) True s =
       Some (Returned, s\<lparr>shellwidgets := remove_widget (client_id c) (shellwidgets s)\<rparr>) \<and>
     length (remove_widget (client_id c) (shellwidgets s)) + 1 = length (shellwidgets s) \<and>
     filter (\<lambda>x. client_id x \<noteq> client_id c) (remove_widget (client_id c) (shellwidgets s))
       = filter (\<lambda>x. client_id x \<noteq> client_id c) (shellwidgets s) \<and>
     (distinct (map client_id (shellwidgets s)) \<longrightarrow>
        set (remove_widget (client_id c) (shellwidgets s)) = set (shellwidgets s) - {c})"
proof (intro impI conjI)
  assume c: "c \<in> set (shellwidgets s)"
  then have w: "client_id c \<in> client_id ` set (shellwidgets s)" by auto
  from tab_widget_indexOf [OF w] obtain c' where
    c': "tab_widget s (indexOf s (client_id c)) = Some c'" "client_id c' = client_id c" by auto
  then have "tab_widget s
             (case Some (client_id c) of Some w \<Rightarrow> indexOf s w
              | None \<Rightarrow> (case index of None \<Rightarrow> cur | Some i \<Rightarrow> i)) = Some c'" by simp
  from close_console_forced [OF this] c'
  show "close_console e cur index (Some (client_id c)) True s =
       Some (Returned, s\<lparr>shellwidgets := remove_widget (client_id c) (shellwidgets s)\<rparr>)"
    by simp
  from w show "length (remove_widget (client_id c) (shellwidgets s)) + 1 = length (shellwidgets s)"
    by (rule length_remove_widget)
  show "filter (\<lambda>x. client_id x \<noteq> client_id c) (remove_widget (client_id c) (shellwidgets s))
       = filter (\<lambda>x. client_id x \<noteq> client_id c) (shellwidgets s)"
    by (rule filter_remove_widget)
next
  assume c: "c \<in> set (shellwidgets s)" and d: "distinct (map client_id (shellwidgets s))"
  have "\<And>x. x \<in> set (shellwidgets s) \<Longrightarrow> (client_id x = client_id c) = (x = c)"
    using c d by (auto simp: distinct_map dest: inj_onD)
  then show "set (remove_widget (client_id c) (shellwidgets s)) = set (shellwidgets s) - {c}"
    using d by (auto simp: remove_widget_distinct)
qed

theorem close_console_force_witness:
  "close_console always_yes 0 None (Some 3) True two_on_kernel_1 =
     Some (Returned, two_on_kernel_1\<lparr>shellwidgets :=
        [a_client 1 ''kernel-2.json'' (Some 20) ''2/A'', a_client 5 ''kernel-1.json'' (Some 10) ''1/B'']\<rparr>) \<and>
   extconsole two_on_kernel_1 = [kernel_1, kernel_2]"
proof -
  have sw: "shellwidgets two_on_kernel_1 =
      [a_client 1 ''kernel-2.json'' (Some 20) ''2/A'', a_client 3 ''kernel-1.json'' (Some 10) ''1/A'',
       a_client 5 ''kernel-1.json'' (Some 10) ''1/B'']"
    by (simp add: two_on_kernel_1_def init_def)
  have c: "a_client 3 ''kernel-1.json'' (Some 10) ''1/A'' \<in> set (shellwidgets two_on_kernel_1)"
    by (simp add: sw)
  have i: "client_id (a_client 3 ''kernel-1.json'' (Some 10) ''1/A'') = 3" by (simp add: a_client_def)
  have r: "remove_widget 3 (shellwidgets two_on_kernel_1) =
      [a_client 1 ''kernel-2.json'' (Some 20) ''2/A'', a_client 5 ''kernel-1.json'' (Some 10) ''1/B'']"
    by (simp add: sw a_client_def)
  from close_console_force [of "a_client 3 ''kernel-1.json'' (Some 10) ''1/A''" two_on_kernel_1 always_yes 0 None] c
  have "close_console always_yes 0 None (Some 3) True two_on_kernel_1 =
       Some (Returned, two_on_kernel_1\<lparr>shellwidgets := remove_widget 3 (shellwidgets two_on_kernel_1)\<rparr>)"
    by (simp add: i)
  with r show ?thesis by (simp add: two_on_kernel_1_def init_def)
qed

text \<open>
  Claim C4 as stated fails: the only client of the kernel widget 10 is closed with
  \<^verbatim>\<open>force=True\<close>; it was the last session bound to that kernel, whose widget is in the
  external console, and after the call the kernel widget is still there.
\<close>

theorem close_console_force_keeps_kernel:
  "sessionsForKernel one_on_kernel_1 10 = [a_client 1 ''kernel-1.json'' (Some 10) ''1/A''] \<and>
   extconsole_get_shell_index_from_id (extconsole one_on_kernel_1) (Some 10) = Some 0 \<and>
   close_console always_yes 0 None (Some 1) True one_on_kernel_1 =
     Some (Returned, one_on_kernel_1\<lparr>shellwidgets := []\<rparr>) \<and>
   extconsole (one_on_kernel_1\<lparr>shellwidgets := []\<rparr>) = [kernel_1] \<and>
   questions (one_on_kernel_1\<lparr>shellwidgets := []\<rparr>) = questions one_on_kernel_1"
  by (simp add: one_on_kernel_1_def init_def sessionsForKernel_def a_client_def kernel_1_def
      extconsole_get_shell_index_from_id_def close_console_def tab_widget_def indexOf_def
      get_shell_index_from_id_def remove_tab_and_widget_def)

subsection \<open>close_console returns\<close>

lemma extconsole_index_bound:
  "extconsole_get_shell_index_from_id ks kwid = Some idx \<Longrightarrow> idx < length ks"
  by (auto simp: extconsole_get_shell_index_from_id_def split: option.splits
      dest: index_from_id_Some)

lemma length_extconsole_close_console:
  "idx < length ks \<Longrightarrow> length (extconsole_close_console c (Some idx) ks) = length ks - 1"
  by (auto simp: extconsole_close_console_def)

lemma extconsole_remove_tab_and_widget:
  "extconsole (snd (remove_tab_and_widget w s)) = extconsole s"
  by (simp add: remove_tab_and_widget_def)

lemma remove_tab_and_widget_cases:
  "remove_tab_and_widget w s = (Returned, s\<lparr>shellwidgets := remove_widget w (shellwidgets s)\<rparr>) \<or>
   remove_tab_and_widget w s = (Raised ValueError, s)"
  by (simp add: remove_tab_and_widget_def)

lemma close_related_loop_returns:
  assumes H: "\<And>e cur index widget force s. length (extconsole s) < n \<Longrightarrow>
      \<exists>r s'. close_console_fuel n e cur index widget force s = Some (r, s') \<and>
        length (extconsole s') \<le> length (extconsole s)"
  shows "length (extconsole s) < n \<Longrightarrow>
      \<exists>r s'. close_related_loop n e cur client clws s = Some (r, s') \<and>
        length (extconsole s') \<le> length (extconsole s)"
proof (induction clws arbitrary: s)
  case Nil
  show ?case by simp
next
  case (Cons clw clws)
  show ?case
  proof (cases "client_id clw \<noteq> client_id client \<and> connection_file clw = connection_file client")
    case False
    with Cons show ?thesis by auto
  next
    case True
    from H [OF Cons.prems, of e cur None "Some (client_id clw)" False] obtain r s1 where
      1: "close_console_fuel n e cur None (Some (client_id clw)) False s = Some (r, s1)"
        "length (extconsole s1) \<le> length (extconsole s)" by blast
    show ?thesis
    proof (cases r)
      case Returned
      from 1 Cons.prems have "length (extconsole s1) < n" by simp
      from Cons.IH [OF this] obtain r' s' where
        "close_related_loop n e cur client clws s1 = Some (r', s')"
        "length (extconsole s') \<le> length (extconsole s1)" by blast
      with 1 True Returned show ?thesis by auto
    next
      case (Raised x)
      with 1 True show ?thesis by auto
    next
      case Blocked
      with 1 True show ?thesis by auto
    qed
  qed
qed

lemma remove_tab_and_widget_returns:
  "\<exists>r s'. remove_tab_and_widget w t = (r, s') \<and> extconsole s' = extconsole t"
  by (simp add: remove_tab_and_widget_def)

lemma close_console_fuel_returns:
  "length (extconsole s) < n \<Longrightarrow>
   \<exists>r s'. close_console_fuel n e cur index widget force s = Some (r, s') \<and>
     length (extconsole s') \<le> length (extconsole s)"
proof (induction n arbitrary: e cur index widget force s)
  case 0
  then show ?case by simp
next
  case (Suc n)
  let ?i = "case widget of Some w \<Rightarrow> indexOf s w
            | None \<Rightarrow> (case index of None \<Rightarrow> cur | Some i \<Rightarrow> i)"
  show ?case
  proof (cases "length (shellwidgets s) = 0")
    case True
    then show ?thesis by simp
  next
    case tabs: False
    show ?thesis
    proof (cases "tab_widget s ?i")
      case None
      with tabs show ?thesis by simp
    next
      case (Some client)
      from remove_tab_and_widget_returns [of "client_id client" s] obtain r0 s0 where
        r0: "remove_tab_and_widget (client_id client) s = (r0, s0)" "extconsole s0 = extconsole s"
        by blast
      from remove_tab_and_widget_returns [of "client_id client" "s\<lparr>questions := questions s + 1\<rparr>"]
      obtain r1 s1 where
        r1: "remove_tab_and_widget (client_id client) (s\<lparr>questions := questions s + 1\<rparr>) = (r1, s1)"
          "extconsole s1 = extconsole s"
        by auto
      show ?thesis
      proof (cases "extconsole_get_shell_index_from_id (extconsole s) (kernel_widget_id client)")
        case None
        with tabs Some r0 show ?thesis by simp
      next
        case idx: (Some idx)
        let ?s2 = "s\<lparr>questions := questions s + (if ask_before_closing s then 1 else 0),
                     extconsole := extconsole_close_console 0 (Some idx) (extconsole s)\<rparr>"
        from extconsole_index_bound [OF idx] have "idx < length (extconsole s)" .
        with Suc.prems have small: "length (extconsole ?s2) < n" "length (extconsole ?s2) \<le> length (extconsole s)"
          by (simp_all add: length_extconsole_close_console)
        from close_related_loop_returns [of n ?s2 e cur client "shellwidgets s", OF Suc.IH small(1)]
        obtain r3 s3 where
          r3: "close_related_loop n e cur client (shellwidgets s) ?s2 = Some (r3, s3)"
            "length (extconsole s3) \<le> length (extconsole ?s2)" by blast
        from remove_tab_and_widget_returns [of "client_id client" s3] obtain r4 s4 where
          r4: "remove_tab_and_widget (client_id client) s3 = (r4, s4)" "extconsole s4 = extconsole s3"
          by blast
        from r3 r4 small have
          "\<exists>r s'. (case Some (r3, s3) of None \<Rightarrow> None
                | Some (Returned, s') \<Rightarrow> Some (remove_tab_and_widget (client_id client) s')
                | Some (r, s') \<Rightarrow> Some (r, s')) = Some (r, s') \<and>
                length (extconsole s') \<le> length (extconsole s)"
          by (cases r3) auto
        with tabs Some idx r0 r1 r3 show ?thesis by simp
      qed
    qed
  qed
qed

text \<open>
  \<^verbatim>\<open>close_console\<close> always comes to an end: the bound on the nesting depth is never
  reached.
\<close>

lemma close_console_returns:
  "\<exists>r s'. close_console e cur index widget force s = Some (r, s')"
proof -
  have "length (extconsole s) < Suc (length (extconsole s))" by simp
  from close_console_fuel_returns [OF this] show ?thesis
    unfolding close_console_def by blast
qed

text \<open>
  A question answered with \<^verbatim>\<open>Cancel\<close> ends the call it was asked in: nothing but the
  count of the questions asked has changed.
\<close>

lemma close_console_cancelled:
  assumes "tab_widget s
             (case widget of Some w \<Rightarrow> indexOf s w
              | None \<Rightarrow> (case index of None \<Rightarrow> cur | Some i \<Rightarrow> i)) = Some c"
    and "extconsole_get_shell_index_from_id (extconsole s) (kernel_widget_id c) = Some idx"
    and "ask_before_closing s" and "answers e (questions s) = Cancel"
  shows "close_console e cur index widget False s = Some (Returned, s\<lparr>questions := questions s + 1\<rparr>)"
proof -
  from assms(1) have "c \<in> set (shellwidgets s)" by (rule tab_widget_member)
  then have "length (shellwidgets s) \<noteq> 0" by auto
  with assms show ?thesis by (simp add: close_console_def)
qed

text \<open>
  A close that is not atomic: \<^verbatim>\<open>close_related_ipython_clients\<close> closes each related
  client with \<^verbatim>\<open>self.close_console(widget=clw)\<close>, not forced, so a related client whose
  kernel widget is still in the external console is asked about again. Here the user
  has said \<^verbatim>\<open>Yes\<close> to closing client 1 with its kernel and all of its clients; kernel 10
  is terminated and client 1 removed, but the related client 3 (same connection file)
  stays registered when the second question is cancelled.
\<close>

theorem close_console_nested_cancel:
  "close_console yes_then_cancel 0 None (Some 1) False two_kernels_one_file =
     Some (Returned,
           two_kernels_one_file
             \<lparr>shellwidgets := [a_client 3 ''kernel-1.json'' (Some 20) ''1/A''],
              extconsole := [kernel_2], questions := 2\<rparr>)"
  by (simp add: close_console_def two_kernels_one_file_def yes_then_cancel_def init_def
      a_client_def kernel_1_def kernel_2_def tab_widget_def indexOf_def get_shell_index_from_id_def
      extconsole_get_shell_index_from_id_def extconsole_close_console_def remove_tab_and_widget_def)

subsection \<open>What every close keeps\<close>

lemma close_console_fuel_invariant:
  fixes R :: "IPythonConsole \<Rightarrow> bool"
  assumes rm: "\<And>s w. R s \<Longrightarrow> R (s\<lparr>shellwidgets := remove_widget w (shellwidgets s)\<rparr>)"
      and ex: "\<And>s q i. R s \<Longrightarrow>
                 R (s\<lparr>questions := q,
                      extconsole := extconsole_close_console 0 (Some i) (extconsole s)\<rparr>)"
      and qu: "\<And>s q. R s \<Longrightarrow> R (s\<lparr>questions := q\<rparr>)"
  shows "close_console_fuel n e cur index widget force s = Some (r, s') \<Longrightarrow> R s \<Longrightarrow> R s'"
    and "close_related_loop n e cur client clws s = Some (r, s') \<Longrightarrow> R s \<Longrightarrow> R s'"
proof (induction n e cur index widget force s and n e cur client clws s
    arbitrary: r s' and r s' rule: close_console_fuel_close_related_loop.induct)
  case (1 e cur index widget force s)
  then show ?case by simp
next
  case (2 n e cur index widget force s)
  have rt: "\<And>w t r s'. R t \<Longrightarrow> remove_tab_and_widget w t = (r, s') \<Longrightarrow> R s'"
    using rm by (auto simp: remove_tab_and_widget_def split: if_splits)
  show ?case
  proof (cases "length (shellwidgets s) = 0")
    case True
    with "2.prems" show ?thesis by simp
  next
    case tabs: False
    show ?thesis
    proof (cases "tab_widget s (case widget of Some w \<Rightarrow> indexOf s w
                     | None \<Rightarrow> (case index of None \<Rightarrow> cur | Some i \<Rightarrow> i))")
      case None
      with tabs "2.prems" show ?thesis by simp
    next
      case (Some client)
      show ?thesis
      proof (cases "force")
        case True
        with tabs Some "2.prems" rt show ?thesis by auto
      next
        case nf: False
        show ?thesis
        proof (cases "extconsole_get_shell_index_from_id (extconsole s) (kernel_widget_id client)")
          case None
          with tabs Some nf "2.prems" rt show ?thesis by auto
        next
          case idx: (Some idx)
          show ?thesis
          proof (cases "ask_before_closing s \<and> answers e (questions s) = Cancel")
            case True
            with tabs Some nf idx "2.prems" qu show ?thesis by auto
          next
            case nc: False
            show ?thesis
            proof (cases "ask_before_closing s \<and> answers e (questions s) \<noteq> Yes")
              case True
              with tabs Some nf idx nc "2.prems" rt [OF qu [OF "2.prems"(2)]] show ?thesis by auto
            next
              case all: False
              let ?s2 = "s\<lparr>questions := questions s + (if ask_before_closing s then 1 else 0),
                     extconsole := extconsole_close_console 0 (Some idx) (extconsole s)\<rparr>"
              have R2: "R ?s2" using ex [OF "2.prems"(2)] .
              from tabs Some nf idx nc all "2.prems"(1) obtain r3 s3 where
                l: "close_related_loop n e cur client (shellwidgets s) ?s2 = Some (r3, s3)"
                and fin: "(case r3 of Returned \<Rightarrow> Some (remove_tab_and_widget (client_id client) s3)
                           | _ \<Rightarrow> Some (r3, s3)) = Some (r, s')"
                by (auto split: option.splits outcome.splits if_splits)
              from "2.IH" [OF tabs Some nf idx nc all l R2] have R3: "R s3" .
              from fin R3 rt show ?thesis by (cases r3) auto
            qed
          qed
        qed
      qed
    qed
  qed
next
  case (3 n e cur client s)
  then show ?case by simp
next
  case (4 n e cur client clw clws s)
  show ?case
  proof (cases "client_id clw \<noteq> client_id client \<and> connection_file clw = connection_file client")
    case False
    with "4.prems" "4.IH"(3) show ?thesis by auto
  next
    case True
    from True "4.prems"(1) obtain r1 s1 where
      c: "close_console_fuel n e cur None (Some (client_id clw)) False s = Some (r1, s1)"
      by (auto split: option.splits)
    from "4.IH"(1) [OF True c "4.prems"(2)] have R1: "R s1" .
    show ?thesis
    proof (cases r1)
      case Returned
      with True c "4.prems"(1) have "close_related_loop n e cur client clws s1 = Some (r, s')"
        by simp
      from "4.IH"(2) [OF True c _ Returned this R1] show ?thesis by simp
    next
      case (Raised x)
      with True c "4.prems"(1) R1 show ?thesis by simp
    next
      case Blocked
      with True c "4.prems"(1) R1 show ?thesis by simp
    qed
  qed
qed

subsection \<open>Unique client names\<close>

lemma register_client_returned:
  assumes "register_client e cf kwid name s = (Returned, s')"
  shows "\<exists>c. s' = s\<lparr>next_id := next_id s + 2, shellwidgets := shellwidgets s @ [c]\<rparr> \<and>
           client_id c = next_id s + 1 \<and> ipython_widget c = next_id s \<and>
           client_name c = name \<and> connection_file c = cf \<and>
           kernel_widget_id c = kwid \<and> tab_text c = ''Console '' @ name \<and> plain_text c = [] \<and>
           custom_interrupt_requested c =
             (case spyder_kernel s cf of Some k \<Rightarrow> Kernel_keyboard_interrupt (kernel_id k)
              | None \<Rightarrow> Client_interrupt_message) \<and>
           create_new_client e cf = None"
  using assms
  by (auto simp: register_client_def Let_def add_tab_def get_name_def split: option.splits)

lemma new_client_result:
  assumes "new_client e typed given_file given_kwid s = (r, s')"
  shows "s' = s \<or> (\<exists>cf. s' = s\<lparr>criticals := criticals s @ [unable_to_connect cf]\<rparr>) \<or>
         (\<exists>cf fragment name kwid kwid'.
            (case given_file of None \<Rightarrow> ask_connection_file typed | Some f \<Rightarrow> Accepted f) = Accepted cf \<and>
            match_connection_file cf = Some fragment \<and>
            naming_loop fragment (get_clients s) given_kwid 0 = Inr (name, kwid) \<and>
            kwid' = (if kwid = None then scan_extconsole cf (extconsole s) kwid else kwid) \<and>
            register_client e cf kwid' name s = (Returned, s') \<and> r = Returned)"
proof (cases "case given_file of None \<Rightarrow> ask_connection_file typed | Some f \<Rightarrow> Accepted f")
  case (Accepted cf)
  show ?thesis
  proof (cases "match_connection_file cf")
    case None
    with Accepted assms show ?thesis by (simp add: new_client_def)
  next
    case (Some fragment)
    show ?thesis
    proof (cases "naming_loop fragment (get_clients s) given_kwid 0")
      case (Inl err)
      with Accepted Some assms show ?thesis by (simp add: new_client_def)
    next
      case (Inr p)
      obtain name kwid where p: "p = (name, kwid)" by (cases p)
      let ?k = "if kwid = None then scan_extconsole cf (extconsole s) kwid else kwid"
      obtain r1 s1 where reg: "register_client e cf ?k name s = (r1, s1)"
        by (cases "register_client e cf ?k name s")
      show ?thesis
      proof (cases r1)
        case Returned
        with reg Accepted Some Inr p assms have "s1 = s'" "r = Returned"
          by (simp_all add: new_client_def Let_def)
        with reg Returned Accepted Some Inr p show ?thesis by auto
      next
        case (Raised err)
        with reg have "s1 = s" by (auto dest: register_client_raises)
        with Raised reg Accepted Some Inr p assms show ?thesis
          by (auto simp: new_client_def Let_def split: if_splits)
      next
        case Blocked
        with reg show ?thesis
          by (auto simp: register_client_def Let_def split: option.splits)
      qed
    qed
  qed
next
  case Dismissed
  with assms show ?thesis by (simp add: new_client_def)
next
  case (Failed err)
  with assms show ?thesis by (simp add: new_client_def)
next
  case Unanswered
  with assms show ?thesis by (simp add: new_client_def)
qed

lemma new_client_unique_names:
  assumes "new_client e typed given_file given_kwid s = (r, s')"
    and "distinct (map client_name (shellwidgets s))"
  shows "distinct (map client_name (shellwidgets s'))"
proof -
  from new_client_result [OF assms(1)] consider "s' = s"
    | cf where "s' = s\<lparr>criticals := criticals s @ [unable_to_connect cf]\<rparr>"
    | cf fragment name kwid kwid' where
        "naming_loop fragment (get_clients s) given_kwid 0 = Inr (name, kwid)"
        "register_client e cf kwid' name s = (Returned, s')"
    by blast
  then show ?thesis
  proof cases
    case 1
    with assms show ?thesis by simp
  next
    case 2
    with assms show ?thesis by simp
  next
    case 3
    from naming_loop_fresh [OF 3(1)] have "name \<notin> client_name ` set (shellwidgets s)"
      by (simp add: get_clients_def)
    with register_client_returned [OF 3(2)] assms(2) show ?thesis by auto
  qed
qed

lemma remove_widget_subset: "set (remove_widget w clws) \<subseteq> set clws"
  by (induction clws) auto

lemma distinct_map_remove_widget:
  "distinct (map f clws) \<Longrightarrow> distinct (map f (remove_widget w clws))"
proof (induction clws)
  case Nil
  show ?case by simp
next
  case (Cons a clws)
  then show ?case using remove_widget_subset [of w clws] by auto
qed

lemma close_console_unique_names:
  assumes "close_console e cur index widget force s = Some (r, s')"
    and "distinct (map client_name (shellwidgets s))"
  shows "distinct (map client_name (shellwidgets s'))"
proof -
  from assms(1) have f: "close_console_fuel (Suc (length (extconsole s))) e cur index widget force s
      = Some (r, s')" by (simp add: close_console_def)
  show ?thesis
    by (rule close_console_fuel_invariant(1)
        [where R = "\<lambda>s. distinct (map client_name (shellwidgets s))", OF _ _ _ f assms(2)])
      (simp_all add: distinct_map_remove_widget)
qed

lemma py_pop_splits:
  "py_pop xs i = Inr (x, rest) \<Longrightarrow> \<exists>a b. xs = a @ x # b \<and> rest = a @ b"
proof -
  assume a: "py_pop xs i = Inr (x, rest)"
  let ?j = "nat (if i < 0 then i + int (length xs) else i)"
  from a have j: "?j < length xs" "x = xs ! ?j" "rest = take ?j xs @ drop (?j + 1) xs"
    by (auto simp: py_pop_def Let_def split: if_splits)
  from j(1) have "xs = take ?j xs @ xs ! ?j # drop (Suc ?j) xs" by (rule id_take_nth_drop)
  with j show ?thesis by (metis Suc_eq_plus1)
qed

lemma py_insert_splits: "\<exists>c d. ys = c @ d \<and> py_insert ys i x = c @ x # d"
  by (simp add: py_insert_def Let_def) (metis append_take_drop_id)

lemma move_tab_shellwidgets:
  assumes "move_tab index_from index_to s = (r, s')"
  shows "s' = s \<or> (\<exists>a b c d x. shellwidgets s = a @ x # b \<and> a @ b = c @ d \<and>
                     s' = s\<lparr>shellwidgets := c @ x # d\<rparr>)"
proof (cases "py_pop (shellwidgets s) index_from")
  case (Inl err)
  with assms show ?thesis by (simp add: move_tab_def)
next
  case (Inr p)
  obtain x rest where p: "p = (x, rest)" by (cases p)
  from py_pop_splits [of "shellwidgets s" index_from x rest] Inr p obtain a b where
    ab: "shellwidgets s = a @ x # b" "rest = a @ b" by auto
  from py_insert_splits [of rest index_to x] obtain c d where
    cd: "rest = c @ d" "py_insert rest index_to x = c @ x # d" by auto
  from assms Inr p cd have "s' = s\<lparr>shellwidgets := c @ x # d\<rparr>" by (simp add: move_tab_def)
  with ab cd have "\<exists>a b c d x. shellwidgets s = a @ x # b \<and> a @ b = c @ d \<and>
                     s' = s\<lparr>shellwidgets := c @ x # d\<rparr>"
    by (intro exI [of _ a] exI [of _ b] exI [of _ c] exI [of _ d] exI [of _ x]) simp
  then show ?thesis ..
qed

lemma distinct_map_moved:
  assumes "distinct (map f (a @ x # b))" and "a @ b = c @ d"
  shows "distinct (map f (c @ x # d))"
proof -
  from assms(1) have "distinct (map f (a @ b))" "f x \<notin> f ` set (a @ b)" by auto
  with assms(2) have "distinct (map f (c @ d))" "f x \<notin> f ` set (c @ d)" by simp_all
  then show ?thesis by auto
qed

lemma move_tab_unique_names:
  assumes "move_tab index_from index_to s = (r, s')"
    and "distinct (map client_name (shellwidgets s))"
  shows "distinct (map client_name (shellwidgets s'))"
  using move_tab_shellwidgets [OF assms(1)] assms(2)
  by (auto simp del: map_append distinct_append intro: distinct_map_moved)

lemma map_setTabText:
  assumes "\<And>c t. f (c\<lparr>tab_text := t\<rparr>) = f c"
  shows "map f (shellwidgets (setTabText index name s)) = map f (shellwidgets s)"
  by (simp add: setTabText_def map_update assms list_update_same_conv)

lemma map_set_kernel_widget_id:
  assumes "\<And>c k. f (c\<lparr>kernel_widget_id := k\<rparr>) = f c"
  shows "map f (set_kernel_widget_id w kw clws) = map f clws"
  by (induction clws) (simp_all add: set_kernel_widget_id_def assms)

lemma map_connect_to_new_kernel:
  assumes "\<And>c t. f (c\<lparr>tab_text := t\<rparr>) = f c" and "\<And>c k. f (c\<lparr>kernel_widget_id := k\<rparr>) = f c"
  shows "map f (shellwidgets (snd (connect_to_new_kernel km cur ext_current cf kw s)))
         = map f (shellwidgets s)"
  by (auto simp: connect_to_new_kernel_def Let_def rename_ipython_client_tab_def
      map_setTabText [OF assms(1)] map_set_kernel_widget_id [OF assms(2)]
      split: option.splits)

lemma map_kernel_died:
  assumes "\<And>c t. f (c\<lparr>plain_text := t\<rparr>) = f c"
  shows "map f (shellwidgets (kernel_died k s)) = map f (shellwidgets s)"
  by (simp add: kernel_died_def if_kernel_dies_def assms)

lemma shellwidgets_restart_kernel: "shellwidgets (restart_kernel e c s) = shellwidgets s"
  by (simp add: restart_kernel_def create_new_kernel_def start_ipython_kernel_def
      restart_message_def split: restart_slot.splits)

lemma shellwidgets_interrupt_kernel: "shellwidgets (interrupt_kernel c s) = shellwidgets s"
  by (simp add: interrupt_kernel_def interrupt_message_def split: interrupt_slot.splits)

lemma step_unique_names:
  assumes "distinct (map client_name (shellwidgets s))"
  shows "distinct (map client_name (shellwidgets (step op s)))"
proof (cases op)
  case (New_client e typed given_file given_kwid)
  then show ?thesis
    using new_client_unique_names [OF _ assms, of e typed given_file given_kwid]
    by (cases "new_client e typed given_file given_kwid s") simp
next
  case (Close_console e cur index widget force)
  then show ?thesis
    using close_console_unique_names [OF _ assms, of e cur index widget force] assms
    by (cases "close_console e cur index widget force s") auto
next
  case (Move_tab index_from index_to)
  then show ?thesis
    using move_tab_unique_names [OF _ assms, of index_from index_to]
    by (cases "move_tab index_from index_to s") simp
next
  case (Restart_kernel e i)
  with assms show ?thesis by (simp add: shellwidgets_restart_kernel)
next
  case (Connect_to_new_kernel km cur ext_current cf kw)
  with assms show ?thesis by (simp add: map_connect_to_new_kernel)
next
  case (Interrupt_kernel i)
  with assms show ?thesis by (simp add: shellwidgets_interrupt_kernel)
next
  case (Kernel_died k)
  with assms show ?thesis by (simp add: map_kernel_died)
qed

lemma run_unique_names:
  "distinct (map client_name (shellwidgets s)) \<Longrightarrow>
   distinct (map client_name (shellwidgets (run ops s)))"
  by (induction ops arbitrary: s) (simp_all add: step_unique_names)

text \<open>
  The attribute \<^verbatim>\<open>client_name\<close>, which \<^verbatim>\<open>IPythonClient.__init__\<close> sets and nothing writes
  again. In every state the plugin reaches from its initial, empty registry, by any
  sequence of operations, the \<^verbatim>\<open>client_name\<close>s of the registered clients are pairwise
  different; and every single operation, run in any state where they are, leaves them
  so: \<^verbatim>\<open>new_client\<close> because its naming loop ends on a name no client bears,
  \<^verbatim>\<open>close_console\<close> and \<^verbatim>\<open>move_tab\<close> because they only remove or move entries, and the
  restart of a kernel because \<^verbatim>\<open>connect_to_new_kernel\<close> and \<^verbatim>\<open>rename_ipython_client_tab\<close>
  change the kernel widget id and the tab's text but never a \<^verbatim>\<open>client_name\<close>. The names
  shown on the tabs are another matter, see below.
\<close>

theorem client_names_unique:
  "distinct (map client_name (shellwidgets (run ops (init kernels ask n)))) \<and>
   (distinct (map client_name (shellwidgets s))
      \<longrightarrow> distinct (map client_name (shellwidgets (step op s))))"
  using run_unique_names [of "init kernels ask n" ops] step_unique_names [of s op]
  by (simp add: init_def)

lemma restart_run_names:
  "map client_name (shellwidgets (run restart_run (init [kernel_1] False 100)))
     = [''1/A'', ''1/B'', ''7/A''] \<and>
   map tab_text (shellwidgets (run restart_run (init [kernel_1] False 100)))
     = [''Console 1/A'', ''Console 7/A'', ''Console 7/A'']"
  by (simp add: restart_run_def init_def always_yes_def kernel_1_def new_client_def
      match_connection_file_def greedy_plus_def hexdash_def dot_json_def naming_loop_unfold
      get_clients_def letter_A letter_B register_client_def spyder_kernel_def add_tab_def get_name_def
      restart_kernel_def create_new_kernel_def start_ipython_kernel_def
      connect_to_new_kernel_def tab_widget_def extconsole_get_shell_index_from_id_def
      extconsole_close_console_def set_ipython_kernel_attrs_def set_kernel_widget_id_def
      rename_ipython_client_tab_def match_pid_file_def digit_def get_shell_index_from_id_def
      setTabText_def Let_def)

theorem client_names_unique_witness:
  "distinct (map client_name (shellwidgets (run restart_run (init [kernel_1] False 100)))) \<and>
   map client_name (shellwidgets (run restart_run (init [kernel_1] False 100)))
     = [''1/A'', ''1/B'', ''7/A''] \<and>
   distinct (map client_name (shellwidgets two_on_kernel_1)) \<and>
   distinct (map client_name (shellwidgets
      (step (Connect_to_new_kernel None 1 0 ''kernel-7.json'' 30) two_on_kernel_1)))"
proof -
  have d: "distinct (map client_name (shellwidgets two_on_kernel_1))"
    by (simp add: two_on_kernel_1_def init_def a_client_def)
  from client_names_unique [of restart_run "[kernel_1]" False 100 two_on_kernel_1
      "Connect_to_new_kernel None 1 0 ''kernel-7.json'' 30"] d restart_run_names
  show ?thesis by simp
qed

subsection \<open>Restart: the client is rebound, its tab renamed\<close>

lemma index_from_id_distinct:
  assumes "distinct ids" and "i < length ids"
  shows "index_from_id ids (ids ! i) 0 = Some i"
proof -
  from assms(2) have "ids ! i \<in> set ids" by simp
  then obtain j where j: "index_from_id ids (ids ! i) 0 = Some j"
    using index_from_id_None [of ids "ids ! i" 0] by auto
  from index_from_id_Some [OF this] have "j < length ids" "ids ! j = ids ! i" by simp_all
  with assms have "j = i" by (simp add: nth_eq_iff_index_eq)
  with j show ?thesis by simp
qed

lemma set_kernel_widget_id_distinct:
  assumes "distinct (map client_id clws)" and "i < length clws"
  shows "set_kernel_widget_id (client_id (clws ! i)) kw clws
         = clws[i := (clws ! i)\<lparr>kernel_widget_id := Some kw\<rparr>]"
proof (rule nth_equalityI)
  show "length (set_kernel_widget_id (client_id (clws ! i)) kw clws)
        = length (clws[i := (clws ! i)\<lparr>kernel_widget_id := Some kw\<rparr>])"
    by (simp add: set_kernel_widget_id_def)
next
  fix j
  assume "j < length (set_kernel_widget_id (client_id (clws ! i)) kw clws)"
  then have j: "j < length clws" by (simp add: set_kernel_widget_id_def)
  have "(client_id (clws ! j) = client_id (clws ! i)) = (j = i)"
    using assms j nth_eq_iff_index_eq [of "map client_id clws" j i] by simp
  with j assms(2) show "set_kernel_widget_id (client_id (clws ! i)) kw clws ! j
        = clws[i := (clws ! i)\<lparr>kernel_widget_id := Some kw\<rparr>] ! j"
    by (simp add: set_kernel_widget_id_def nth_list_update)
qed

lemma tab_widget_Some:
  "tab_widget s cur = Some c \<Longrightarrow> 0 \<le> cur \<and> nat cur < length (shellwidgets s) \<and> c = shellwidgets s ! nat cur"
  by (auto simp: tab_widget_def split: if_splits)

text \<open>
  What \<^verbatim>\<open>connect_to_new_kernel\<close> does when the new kernel announces its connection file.
  It works on the client of the current tab (the one the restart was asked from, unless
  the user has changed tab since). That client remains registered, the same object at
  the same place, and so does every other client, unchanged; its \<^verbatim>\<open>kernel_widget_id\<close>
  becomes the identity of the new kernel widget; the old kernel's tab is closed in the
  external console. No \<^verbatim>\<open>client_name\<close> changes. Only the text of the client's tab is
  regenerated, as \<^verbatim>\<open>Console <digits>/A\<close> from the digits of the new connection file (and
  not at all when the file does not match \<^verbatim>\<open>^kernel-(\d+).json\<close>): the letter is always
  \<^verbatim>\<open>chr(65)\<close> and no other client is looked at.
\<close>

lemma connect_to_new_kernel_rebinds:
  "(tab_widget s cur = Some c \<and> distinct (map client_id (shellwidgets s))
     \<longrightarrow> connect_to_new_kernel None cur ext_current cf kw s =
           (Returned,
            s\<lparr>extconsole :=
                 set_ipython_kernel_attrs cf kw
                   (extconsole_close_console ext_current
                      (extconsole_get_shell_index_from_id (extconsole s) (kernel_widget_id c))
                      (extconsole s)),
              shellwidgets :=
                (shellwidgets s)[nat cur :=
                   c\<lparr>kernel_widget_id := Some kw,
                     tab_text := (case match_pid_file cf of None \<Rightarrow> tab_text c
                                  | Some pid \<Rightarrow> ''Console '' @ pid @ ''/A'')\<rparr>]\<rparr>)) \<and>
   map client_id (shellwidgets (snd (connect_to_new_kernel km cur ext_current cf kw s)))
     = map client_id (shellwidgets s) \<and>
   map client_name (shellwidgets (snd (connect_to_new_kernel km cur ext_current cf kw s)))
     = map client_name (shellwidgets s)"
proof (intro conjI impI)
  assume a: "tab_widget s cur = Some c \<and> distinct (map client_id (shellwidgets s))"
  then have cur: "nat cur < length (shellwidgets s)" "c = shellwidgets s ! nat cur"
    and d: "distinct (map client_id (shellwidgets s))"
    by (auto dest: tab_widget_Some)
  let ?sw = "(shellwidgets s)[nat cur := c\<lparr>kernel_widget_id := Some kw\<rparr>]"
  have skw: "set_kernel_widget_id (client_id c) kw (shellwidgets s) = ?sw"
    using set_kernel_widget_id_distinct [OF d cur(1), of kw] cur(2) by simp
  have ids: "map client_id ?sw = map client_id (shellwidgets s)"
    using cur by (simp add: map_update list_update_same_conv)
  have "index_from_id (map client_id (shellwidgets s)) (map client_id (shellwidgets s) ! nat cur) 0
      = Some (nat cur)"
    using d cur(1) by (intro index_from_id_distinct) simp_all
  with cur have idx: "index_from_id (map client_id ?sw) (client_id c) 0 = Some (nat cur)"
    unfolding ids by simp
  show "connect_to_new_kernel None cur ext_current cf kw s =
           (Returned,
            s\<lparr>extconsole :=
                 set_ipython_kernel_attrs cf kw
                   (extconsole_close_console ext_current
                      (extconsole_get_shell_index_from_id (extconsole s) (kernel_widget_id c))
                      (extconsole s)),
              shellwidgets :=
                (shellwidgets s)[nat cur :=
                   c\<lparr>kernel_widget_id := Some kw,
                     tab_text := (case match_pid_file cf of None \<Rightarrow> tab_text c
                                  | Some pid \<Rightarrow> ''Console '' @ pid @ ''/A'')\<rparr>]\<rparr>)"
  proof (cases "match_pid_file cf")
    case None
    with a skw cur show ?thesis
      by (simp add: connect_to_new_kernel_def Let_def rename_ipython_client_tab_def)
  next
    case (Some pid)
    with a skw cur idx show ?thesis
      by (simp add: connect_to_new_kernel_def Let_def rename_ipython_client_tab_def
          get_shell_index_from_id_def setTabText_def letter_A)
  qed
next
  show "map client_id (shellwidgets (snd (connect_to_new_kernel km cur ext_current cf kw s)))
     = map client_id (shellwidgets s)"
    by (rule map_connect_to_new_kernel) simp_all
  show "map client_name (shellwidgets (snd (connect_to_new_kernel km cur ext_current cf kw s)))
     = map client_name (shellwidgets s)"
    by (rule map_connect_to_new_kernel) simp_all
qed

subsection \<open>The death of a kernel\<close>

lemma sum_plain_text_died:
  "sum_list (map (length \<circ> plain_text)
      (map (\<lambda>c. if kernel_widget_id c = Some k then if_kernel_dies c else c) clws))
   = sum_list (map (length \<circ> plain_text) clws)
     + length (filter (\<lambda>c. kernel_widget_id c = Some k) clws)"
  by (induction clws) (simp_all add: if_kernel_dies_def)

text \<open>
  Claim C8. When the death of the kernel with widget id \<open>k\<close> is delivered, every
  session bound to \<open>k\<close> receives exactly one notification (\<^verbatim>\<open>if_kernel_dies\<close> writes its
  message once to that session's console) and no other session receives any, so the
  notifications delivered are as many as the sessions bound to \<open>k\<close>; no session is
  removed: the registry holds the same clients in the same order, and the external
  console is untouched. The delivery follows the spec; the handler and what it does
  are the code's.
\<close>

theorem kernel_died_notifies_bound_sessions:
  "map client_id (shellwidgets (kernel_died k s)) = map client_id (shellwidgets s) \<and>
   length (shellwidgets (kernel_died k s)) = length (shellwidgets s) \<and>
   (\<forall>i. i < length (shellwidgets s) \<longrightarrow>
      shellwidgets (kernel_died k s) ! i =
        (if shellwidgets s ! i \<in> set (sessionsForKernel s k)
         then (shellwidgets s ! i)
                \<lparr>plain_text := plain_text (shellwidgets s ! i) @ [kernel_died_message @ [CHR 0x0A]]\<rparr>
         else shellwidgets s ! i)) \<and>
   sum_list (map (length \<circ> plain_text) (shellwidgets (kernel_died k s)))
     = sum_list (map (length \<circ> plain_text) (shellwidgets s)) + length (sessionsForKernel s k) \<and>
   extconsole (kernel_died k s) = extconsole s"
proof (intro conjI allI impI)
  show "map client_id (shellwidgets (kernel_died k s)) = map client_id (shellwidgets s)"
    by (rule map_kernel_died) simp
  show "length (shellwidgets (kernel_died k s)) = length (shellwidgets s)"
    by (simp add: kernel_died_def)
  show "sum_list (map (length \<circ> plain_text) (shellwidgets (kernel_died k s)))
     = sum_list (map (length \<circ> plain_text) (shellwidgets s)) + length (sessionsForKernel s k)"
    by (simp add: kernel_died_def sessionsForKernel_def sum_plain_text_died del: map_map)
  show "extconsole (kernel_died k s) = extconsole s"
    by (simp add: kernel_died_def)
next
  fix i
  assume "i < length (shellwidgets s)"
  then show "shellwidgets (kernel_died k s) ! i =
        (if shellwidgets s ! i \<in> set (sessionsForKernel s k)
         then (shellwidgets s ! i)
                \<lparr>plain_text := plain_text (shellwidgets s ! i) @ [kernel_died_message @ [CHR 0x0A]]\<rparr>
         else shellwidgets s ! i)"
    by (simp add: kernel_died_def sessionsForKernel_def if_kernel_dies_def)
qed

theorem kernel_died_notifies_bound_sessions_witness:
  "length (sessionsForKernel three_on_kernel_1 10) = 3 \<and>
   map client_id (shellwidgets (kernel_died 10 three_on_kernel_1)) = [1, 3, 5, 7] \<and>
   map plain_text (shellwidgets (kernel_died 10 three_on_kernel_1))
     = [[kernel_died_message @ [CHR 0x0A]], [], [kernel_died_message @ [CHR 0x0A]],
        [kernel_died_message @ [CHR 0x0A]]] \<and>
   sum_list (map (length \<circ> plain_text) (shellwidgets (kernel_died 10 three_on_kernel_1))) = 3"
proof -
  have sw: "shellwidgets three_on_kernel_1 =
      [a_client 1 ''kernel-1.json'' (Some 10) ''1/A'', a_client 3 ''kernel-2.json'' (Some 20) ''2/A'',
       a_client 5 ''kernel-1.json'' (Some 10) ''1/B'', a_client 7 ''kernel-1.json'' (Some 10) ''1/C'']"
    by (simp add: three_on_kernel_1_def init_def)
  have n: "length (sessionsForKernel three_on_kernel_1 10) = 3"
    by (simp add: sessionsForKernel_def sw a_client_def)
  have t: "map plain_text (shellwidgets (kernel_died 10 three_on_kernel_1))
     = [[kernel_died_message @ [CHR 0x0A]], [], [kernel_died_message @ [CHR 0x0A]],
        [kernel_died_message @ [CHR 0x0A]]]"
    by (simp add: kernel_died_def sw a_client_def if_kernel_dies_def)
  from kernel_died_notifies_bound_sessions [of 10 three_on_kernel_1] n sw t
  show ?thesis by (simp add: a_client_def)
qed

subsection \<open>Identities and interrupt slots along a run\<close>

lemma close_console_subset:
  assumes "close_console e cur index widget force s = Some (r, s')"
  shows "set (shellwidgets s') \<subseteq> set (shellwidgets s) \<and> next_id s' = next_id s"
proof -
  from assms have f: "close_console_fuel (Suc (length (extconsole s))) e cur index widget force s
      = Some (r, s')" by (simp add: close_console_def)
  have rm: "\<And>t w. set (shellwidgets t) \<subseteq> set (shellwidgets s) \<and> next_id t = next_id s \<Longrightarrow>
      set (shellwidgets (t\<lparr>shellwidgets := remove_widget w (shellwidgets t)\<rparr>)) \<subseteq> set (shellwidgets s) \<and>
      next_id (t\<lparr>shellwidgets := remove_widget w (shellwidgets t)\<rparr>) = next_id s"
    using remove_widget_subset by fastforce
  show ?thesis
    by (rule close_console_fuel_invariant(1)
        [where R = "\<lambda>t. set (shellwidgets t) \<subseteq> set (shellwidgets s) \<and> next_id t = next_id s",
          OF rm _ _ f]) simp_all
qed

lemma ids_well_formed_remove_widget:
  "ids_well_formed t \<Longrightarrow> ids_well_formed (t\<lparr>shellwidgets := remove_widget w (shellwidgets t)\<rparr>)"
  using remove_widget_subset [of w "shellwidgets t"]
  by (auto simp: ids_well_formed_def list_all_iff distinct_map_remove_widget)

lemma set_extconsole_close_console:
  "set (extconsole_close_console ext_current idx ks) \<subseteq> set ks"
  using set_take_subset [of _ ks] set_drop_subset [of _ ks]
  by (auto simp: extconsole_close_console_def split: option.splits)

lemma kernel_id_set_ipython_kernel_attrs:
  "map kernel_id (set_ipython_kernel_attrs cf kw ks) = map kernel_id ks"
  by (simp add: set_ipython_kernel_attrs_def)

lemma ids_well_formed_close_kernel:
  "ids_well_formed t \<Longrightarrow>
   ids_well_formed (t\<lparr>questions := q,
                       extconsole := extconsole_close_console 0 (Some i) (extconsole t)\<rparr>)"
  using set_extconsole_close_console [of 0 "Some i" "extconsole t"]
  by (auto simp: ids_well_formed_def list_all_iff)

lemma close_console_ids_well_formed:
  assumes "close_console e cur index widget force s = Some (r, s')" and "ids_well_formed s"
  shows "ids_well_formed s'"
proof -
  from assms have f: "close_console_fuel (Suc (length (extconsole s))) e cur index widget force s
      = Some (r, s')" by (simp add: close_console_def)
  show ?thesis
    by (rule close_console_fuel_invariant(1)
        [where R = ids_well_formed,
          OF ids_well_formed_remove_widget ids_well_formed_close_kernel _ f assms(2)])
      (simp_all add: ids_well_formed_def)
qed

lemma new_client_registry:
  assumes "new_client e typed given_file given_kwid s = (r, s')"
  shows "(shellwidgets s' = shellwidgets s \<and> next_id s' = next_id s) \<or>
         (\<exists>c. shellwidgets s' = shellwidgets s @ [c] \<and> next_id s' = next_id s + 2 \<and>
              client_id c = next_id s + 1)"
proof -
  from new_client_result [OF assms] consider "s' = s"
    | cf where "s' = s\<lparr>criticals := criticals s @ [unable_to_connect cf]\<rparr>"
    | cf kwid' name where "register_client e cf kwid' name s = (Returned, s')"
    by blast
  then show ?thesis
  proof cases
    case 1
    then show ?thesis by simp
  next
    case 2
    then show ?thesis by simp
  next
    case 3
    from register_client_returned [OF 3] obtain c where
      "s' = s\<lparr>next_id := next_id s + 2, shellwidgets := shellwidgets s @ [c]\<rparr>"
      "client_id c = next_id s + 1" by blast
    then have "shellwidgets s' = shellwidgets s @ [c] \<and> next_id s' = next_id s + 2 \<and>
              client_id c = next_id s + 1" by simp
    then show ?thesis by blast
  qed
qed

lemma new_client_extconsole:
  assumes "new_client e typed given_file given_kwid s = (r, s')"
  shows "extconsole s' = extconsole s"
proof -
  from new_client_result [OF assms] consider "s' = s"
    | cf where "s' = s\<lparr>criticals := criticals s @ [unable_to_connect cf]\<rparr>"
    | cf kwid' name where "register_client e cf kwid' name s = (Returned, s')"
    by blast
  then show ?thesis
  proof cases
    case 1
    then show ?thesis by simp
  next
    case 2
    then show ?thesis by simp
  next
    case 3
    from register_client_returned [OF 3] obtain c where
      "s' = s\<lparr>next_id := next_id s + 2, shellwidgets := shellwidgets s @ [c]\<rparr>" by blast
    then show ?thesis by simp
  qed
qed

lemma move_tab_extconsole:
  assumes "move_tab index_from index_to s = (r, s')"
  shows "extconsole s' = extconsole s"
  using move_tab_shellwidgets [OF assms] by auto

lemma move_tab_set:
  assumes "move_tab index_from index_to s = (r, s')"
  shows "set (shellwidgets s') = set (shellwidgets s) \<and> next_id s' = next_id s"
proof -
  from move_tab_shellwidgets [OF assms] show ?thesis
  proof
    assume "s' = s" then show ?thesis by simp
  next
    assume "\<exists>a b c d x. shellwidgets s = a @ x # b \<and> a @ b = c @ d \<and>
                     s' = s\<lparr>shellwidgets := c @ x # d\<rparr>"
    then obtain a b c d x where *: "shellwidgets s = a @ x # b" "a @ b = c @ d"
      "s' = s\<lparr>shellwidgets := c @ x # d\<rparr>" by blast
    from *(2) have "set a \<union> set b = set c \<union> set d" by (metis set_append)
    then have "insert x (set c \<union> set d) = insert x (set a \<union> set b)" by simp
    with * show ?thesis by simp
  qed
qed

lemma next_id_step: "next_id s \<le> next_id (step op s)"
proof (cases op)
  case (New_client e typed given_file given_kwid)
  obtain r s' where n: "new_client e typed given_file given_kwid s = (r, s')"
    by (cases "new_client e typed given_file given_kwid s")
  from new_client_registry [OF n] have "next_id s \<le> next_id s'" by auto
  with n New_client show ?thesis by simp
next
  case (Close_console e cur index widget force)
  show ?thesis
  proof (cases "close_console e cur index widget force s")
    case None
    with Close_console show ?thesis by simp
  next
    case (Some p)
    obtain r s' where "p = (r, s')" by (cases p)
    with Some Close_console close_console_subset [of e cur index widget force s r s']
    show ?thesis by simp
  qed
next
  case (Move_tab index_from index_to)
  obtain r s' where m: "move_tab index_from index_to s = (r, s')"
    by (cases "move_tab index_from index_to s")
  from move_tab_set [OF m] m Move_tab show ?thesis by simp
next
  case (Restart_kernel e i)
  then show ?thesis
    by (simp add: restart_kernel_def create_new_kernel_def start_ipython_kernel_def
        restart_message_def split: restart_slot.splits)
next
  case (Connect_to_new_kernel km cur ext_current cf kw)
  then show ?thesis
    by (simp add: connect_to_new_kernel_def Let_def rename_ipython_client_tab_def setTabText_def
        split: option.splits)
next
  case (Interrupt_kernel i)
  then show ?thesis
    by (simp add: interrupt_kernel_def interrupt_message_def split: interrupt_slot.splits)
next
  case (Kernel_died k)
  then show ?thesis by (simp add: kernel_died_def)
qed

lemma next_id_run: "next_id s \<le> next_id (run ops s)"
proof (induction ops arbitrary: s)
  case Nil
  show ?case by simp
next
  case (Cons op ops)
  from next_id_step [of s op] Cons [of "step op s"] show ?case by simp
qed

lemma interrupt_connection_step:
  assumes "c' \<in> set (shellwidgets (step op s))"
  shows "(\<exists>c\<in>set (shellwidgets s). interrupt_connection c = interrupt_connection c') \<or>
         next_id s < client_id c'"
proof (cases op)
  case (New_client e typed given_file given_kwid)
  obtain r s' where n: "new_client e typed given_file given_kwid s = (r, s')"
    by (cases "new_client e typed given_file given_kwid s")
  with New_client assms have c': "c' \<in> set (shellwidgets s')" by simp
  from new_client_registry [OF n] c' show ?thesis by auto
next
  case (Close_console e cur index widget force)
  show ?thesis
  proof (cases "close_console e cur index widget force s")
    case None
    with Close_console assms show ?thesis by auto
  next
    case (Some p)
    obtain r s' where "p = (r, s')" by (cases p)
    with Some Close_console close_console_subset [of e cur index widget force s r s'] assms
    show ?thesis by auto
  qed
next
  case (Move_tab index_from index_to)
  obtain r s' where m: "move_tab index_from index_to s = (r, s')"
    by (cases "move_tab index_from index_to s")
  from move_tab_set [OF m] m Move_tab assms show ?thesis by auto
next
  case (Restart_kernel e i)
  with assms show ?thesis by (auto simp: shellwidgets_restart_kernel split: if_splits)
next
  case (Connect_to_new_kernel km cur ext_current cf kw)
  have "map interrupt_connection (shellwidgets (snd (connect_to_new_kernel km cur ext_current cf kw s)))
      = map interrupt_connection (shellwidgets s)"
    by (rule map_connect_to_new_kernel) (simp_all add: interrupt_connection_def)
  then have "interrupt_connection ` set (shellwidgets (step op s))
      = interrupt_connection ` set (shellwidgets s)"
    using Connect_to_new_kernel by (metis set_map step.simps(5))
  with assms show ?thesis by (metis imageE imageI)
next
  case (Interrupt_kernel i)
  with assms show ?thesis by (auto simp: shellwidgets_interrupt_kernel split: if_splits)
next
  case (Kernel_died k)
  have "map interrupt_connection (shellwidgets (kernel_died k s))
      = map interrupt_connection (shellwidgets s)"
    by (rule map_kernel_died) (simp add: interrupt_connection_def)
  then have "interrupt_connection ` set (shellwidgets (step op s))
      = interrupt_connection ` set (shellwidgets s)"
    using Kernel_died by (metis set_map step.simps(7))
  with assms show ?thesis by (metis imageE imageI)
qed

lemma interrupt_connection_run:
  "c' \<in> set (shellwidgets (run ops s)) \<Longrightarrow>
   (\<exists>c\<in>set (shellwidgets s). interrupt_connection c = interrupt_connection c') \<or>
   next_id s < client_id c'"
proof (induction ops arbitrary: s)
  case Nil
  then show ?case by auto
next
  case (Cons op ops)
  from Cons.prems have "c' \<in> set (shellwidgets (run ops (step op s)))" by simp
  from Cons.IH [OF this] show ?case
  proof
    assume "\<exists>c\<in>set (shellwidgets (step op s)). interrupt_connection c = interrupt_connection c'"
    then obtain c where c: "c \<in> set (shellwidgets (step op s))"
      "interrupt_connection c = interrupt_connection c'" by blast
    from interrupt_connection_step [OF c(1)] show ?thesis
    proof
      assume "\<exists>c0\<in>set (shellwidgets s). interrupt_connection c0 = interrupt_connection c"
      with c(2) show ?thesis by auto
    next
      assume "next_id s < client_id c"
      moreover from c(2) have "client_id c = client_id c'" by (simp add: interrupt_connection_def)
      ultimately show ?thesis by simp
    qed
  next
    assume "next_id (step op s) < client_id c'"
    with next_id_step [of s op] show ?thesis by simp
  qed
qed

lemma next_id_kernel_died: "next_id (kernel_died k s) = next_id s"
  by (simp add: kernel_died_def)

lemma step_ids_well_formed:
  assumes "ids_well_formed s"
  shows "ids_well_formed (step op s)"
proof (cases op)
  case (New_client e typed given_file given_kwid)
  obtain r s' where n: "new_client e typed given_file given_kwid s = (r, s')"
    by (cases "new_client e typed given_file given_kwid s")
  from new_client_registry [OF n] new_client_extconsole [OF n] assms have "ids_well_formed s'"
    by (fastforce simp: ids_well_formed_def list_all_iff)
  with n New_client show ?thesis by simp
next
  case (Close_console e cur index widget force)
  show ?thesis
  proof (cases "close_console e cur index widget force s")
    case None
    with Close_console assms show ?thesis by simp
  next
    case (Some p)
    obtain r s' where "p = (r, s')" by (cases p)
    with Some Close_console close_console_ids_well_formed [of e cur index widget force s r s'] assms
    show ?thesis by simp
  qed
next
  case (Move_tab index_from index_to)
  obtain r s' where m: "move_tab index_from index_to s = (r, s')"
    by (cases "move_tab index_from index_to s")
  from assms have d: "distinct (map client_id (shellwidgets s))" by (simp add: ids_well_formed_def)
  from move_tab_shellwidgets [OF m] d have "distinct (map client_id (shellwidgets s'))"
    by (auto simp del: map_append distinct_append intro: distinct_map_moved)
  with move_tab_set [OF m] move_tab_extconsole [OF m] assms have "ids_well_formed s'"
    by (simp add: ids_well_formed_def list_all_iff)
  with m Move_tab show ?thesis by simp
next
  case (Restart_kernel e i)
  with assms show ?thesis
    by (fastforce simp: ids_well_formed_def list_all_iff restart_kernel_def create_new_kernel_def
        start_ipython_kernel_def restart_message_def split: restart_slot.splits)
next
  case (Connect_to_new_kernel km cur ext_current cf kw)
  let ?s' = "snd (connect_to_new_kernel km cur ext_current cf kw s)"
  have m: "map client_id (shellwidgets ?s') = map client_id (shellwidgets s)"
    by (rule map_connect_to_new_kernel) simp_all
  have n: "next_id ?s' = next_id s"
    by (simp add: connect_to_new_kernel_def Let_def rename_ipython_client_tab_def setTabText_def
        split: option.splits)
  have "set (map kernel_id (extconsole ?s')) \<subseteq> set (map kernel_id (extconsole s))"
  proof (cases "tab_widget s cur")
    case None
    then show ?thesis by (simp add: connect_to_new_kernel_def)
  next
    case (Some shellwidget)
    let ?ks = "set_ipython_kernel_attrs cf kw
        (extconsole_close_console ext_current
           (extconsole_get_shell_index_from_id (extconsole s) (kernel_widget_id shellwidget))
           (extconsole s))"
    from Some have "extconsole ?s' = ?ks"
      by (simp add: connect_to_new_kernel_def Let_def rename_ipython_client_tab_def setTabText_def
          split: option.splits)
    moreover have "set (map kernel_id ?ks) \<subseteq> set (map kernel_id (extconsole s))"
      unfolding kernel_id_set_ipython_kernel_attrs
      using set_extconsole_close_console [of ext_current _ "extconsole s"] by auto
    ultimately show ?thesis by simp
  qed
  with assms have k: "list_all (\<lambda>k. kernel_id k < next_id s) (extconsole ?s')"
    by (auto simp: ids_well_formed_def list_all_iff)
  have "list_all (\<lambda>c. client_id c < next_id s) (shellwidgets ?s')
      = list_all (\<lambda>i. i < next_id s) (map client_id (shellwidgets ?s'))"
    by (simp add: list_all_iff)
  also have "\<dots> = list_all (\<lambda>c. client_id c < next_id s) (shellwidgets s)"
    unfolding m by (simp add: list_all_iff)
  finally show ?thesis using assms m n k Connect_to_new_kernel by (simp add: ids_well_formed_def)
next
  case (Interrupt_kernel i)
  with assms show ?thesis
    by (simp add: ids_well_formed_def interrupt_kernel_def interrupt_message_def
        split: interrupt_slot.splits)
next
  case (Kernel_died k)
  have m: "map client_id (shellwidgets (kernel_died k s)) = map client_id (shellwidgets s)"
    by (rule map_kernel_died) simp
  have "list_all (\<lambda>c. client_id c < next_id s) (shellwidgets (kernel_died k s))
      = list_all (\<lambda>i. i < next_id s) (map client_id (shellwidgets (kernel_died k s)))"
    by (simp add: list_all_iff)
  also have "\<dots> = list_all (\<lambda>c. client_id c < next_id s) (shellwidgets s)"
    unfolding m by (simp add: list_all_iff)
  moreover have "extconsole (kernel_died k s) = extconsole s" by (simp add: kernel_died_def)
  ultimately show ?thesis using assms m Kernel_died
    by (simp add: ids_well_formed_def next_id_kernel_died)
qed

lemma run_ids_well_formed: "ids_well_formed s \<Longrightarrow> ids_well_formed (run ops s)"
  by (induction ops arbitrary: s) (simp_all add: step_ids_well_formed)

lemma fold_max_above: "m \<le> fold (\<lambda>k m. max (Suc (kernel_id k)) m) kernels (m::nat)"
proof (induction kernels arbitrary: m)
  case Nil
  show ?case by simp
next
  case (Cons k kernels)
  from Cons [of "max (Suc (kernel_id k)) m"] show ?case by simp
qed

lemma fold_max_kernel_ids:
  "k \<in> set kernels \<Longrightarrow> kernel_id k < fold (\<lambda>k m. max (Suc (kernel_id k)) m) kernels n"
proof (induction kernels arbitrary: n)
  case Nil
  then show ?case by simp
next
  case (Cons a kernels)
  show ?case
  proof (cases "k = a")
    case True
    with fold_max_above [of "max (Suc (kernel_id a)) n" kernels] show ?thesis by simp
  next
    case False
    with Cons.prems have "k \<in> set kernels" by simp
    from Cons.IH [OF this] show ?thesis by simp
  qed
qed

lemma init_ids_well_formed: "ids_well_formed (init kernels ask n)"
  by (simp add: ids_well_formed_def init_def list_all_iff fold_max_kernel_ids)

text \<open>
  The kernel widget that \<^verbatim>\<open>create_new_kernel\<close> starts is a new object: in every state the
  plugin reaches, its identity is the one of no kernel widget of the external console
  and of no registered client.
\<close>

lemma create_new_kernel_fresh:
  assumes "create_new_kernel e s = (Some kw, s')" and "ids_well_formed s"
  shows "kw = next_id s"
    and "kw \<notin> kernel_id ` set (extconsole s)"
    and "kw \<notin> client_id ` set (shellwidgets s)"
    and "extconsole s' = extconsole s @ [\<lparr>kernel_id = kw, kernel_connection_file = None\<rparr>]"
    and "shellwidgets s' = shellwidgets s"
  using assms
  by (auto simp: create_new_kernel_def start_ipython_kernel_def ids_well_formed_def list_all_iff
      split: if_splits)

lemma restart_starts_new_kernel_widget:
  assumes "create_new_kernel e (run ops (init kernels ask n)) = (Some kw, s')"
    and "k \<in> set (extconsole (run ops (init kernels ask n)))"
  shows "kernel_id k \<noteq> kw"
  using create_new_kernel_fresh(2) [OF assms(1) run_ids_well_formed [OF init_ids_well_formed]]
    assms(2)
  by auto

subsection \<open>Interrupt requests\<close>

lemmas run_evaluation =
  init_def always_yes_def kernel_1_def kernel_2_def new_client_def
  match_connection_file_def greedy_plus_def hexdash_def dot_json_def naming_loop_unfold
  get_clients_def letter_A letter_B register_client_def spyder_kernel_def add_tab_def get_name_def
  restart_kernel_def create_new_kernel_def start_ipython_kernel_def
  connect_to_new_kernel_def tab_widget_def extconsole_get_shell_index_from_id_def
  extconsole_close_console_def set_ipython_kernel_attrs_def set_kernel_widget_id_def
  rename_ipython_client_tab_def match_pid_file_def digit_def get_shell_index_from_id_def
  setTabText_def interrupt_kernel_def interrupt_message_def Let_def

text \<open>
  The slot of the interrupt signal. \<^verbatim>\<open>register_client\<close> connects the interrupt signal of
  a new session once: to \<^verbatim>\<open>keyboard_interrupt\<close> of the external console's last shell
  widget when the console has widgets and that last one has the session's connection
  file, and to the session's \<^verbatim>\<open>interrupt_message\<close> otherwise. An interrupt request runs
  that slot: either the interrupt is sent to that kernel widget and no box is shown, or
  nothing is sent and the information box \<^verbatim>\<open>Cannot interrupt\<close> is shown on the session.
  The choice is never made again: in every state the plugin reaches, whatever
  operations follow (closes, moves, new clients, kernel deaths, even the restart that
  binds the session to another kernel), a session that is still registered has the
  slot it had.
\<close>

theorem interrupt_follows_registration:
  "(register_client e cf kwid name s = (Returned, s') \<longrightarrow>
      (\<exists>c. shellwidgets s' = shellwidgets s @ [c] \<and>
           custom_interrupt_requested c =
             (if extconsole s \<noteq> [] \<and> kernel_connection_file (last (extconsole s)) = Some cf
              then Kernel_keyboard_interrupt (kernel_id (last (extconsole s)))
              else Client_interrupt_message))) \<and>
   (custom_interrupt_requested c = Kernel_keyboard_interrupt k \<longrightarrow>
      interrupt_kernel c t = t\<lparr>keyboard_interrupts := keyboard_interrupts t @ [k]\<rparr>) \<and>
   (custom_interrupt_requested c = Client_interrupt_message \<longrightarrow>
      interrupt_kernel c t = t\<lparr>informations := informations t @ [(client_id c, cannot_interrupt)]\<rparr>) \<and>
   (c \<in> set (shellwidgets (run before (init kernels ask n))) \<and>
    c' \<in> set (shellwidgets (run later (run before (init kernels ask n)))) \<and>
    client_id c' = client_id c
      \<longrightarrow> custom_interrupt_requested c' = custom_interrupt_requested c)"
proof (intro conjI impI)
  assume "register_client e cf kwid name s = (Returned, s')"
  from register_client_returned [OF this] obtain c where
    c: "s' = s\<lparr>next_id := next_id s + 2, shellwidgets := shellwidgets s @ [c]\<rparr>"
      "custom_interrupt_requested c =
             (case spyder_kernel s cf of Some k \<Rightarrow> Kernel_keyboard_interrupt (kernel_id k)
              | None \<Rightarrow> Client_interrupt_message)" by blast
  then have "shellwidgets s' = shellwidgets s @ [c] \<and>
           custom_interrupt_requested c =
             (if extconsole s \<noteq> [] \<and> kernel_connection_file (last (extconsole s)) = Some cf
              then Kernel_keyboard_interrupt (kernel_id (last (extconsole s)))
              else Client_interrupt_message)"
    by (simp add: spyder_kernel_def)
  then show "\<exists>c. shellwidgets s' = shellwidgets s @ [c] \<and>
           custom_interrupt_requested c =
             (if extconsole s \<noteq> [] \<and> kernel_connection_file (last (extconsole s)) = Some cf
              then Kernel_keyboard_interrupt (kernel_id (last (extconsole s)))
              else Client_interrupt_message)" ..
next
  assume "custom_interrupt_requested c = Kernel_keyboard_interrupt k"
  then show "interrupt_kernel c t = t\<lparr>keyboard_interrupts := keyboard_interrupts t @ [k]\<rparr>"
    by (simp add: interrupt_kernel_def)
next
  assume "custom_interrupt_requested c = Client_interrupt_message"
  then show "interrupt_kernel c t = t\<lparr>informations := informations t @ [(client_id c, cannot_interrupt)]\<rparr>"
    by (simp add: interrupt_kernel_def interrupt_message_def)
next
  let ?s = "run before (init kernels ask n)"
  assume a: "c \<in> set (shellwidgets ?s) \<and> c' \<in> set (shellwidgets (run later ?s)) \<and>
    client_id c' = client_id c"
  have wf: "ids_well_formed ?s" by (rule run_ids_well_formed [OF init_ids_well_formed])
  with a have "client_id c < next_id ?s" by (auto simp: ids_well_formed_def list_all_iff)
  with a interrupt_connection_run [of c' later ?s] obtain c0 where
    c0: "c0 \<in> set (shellwidgets ?s)" "interrupt_connection c0 = interrupt_connection c'"
    by auto
  then have "client_id c0 = client_id c" using a by (simp add: interrupt_connection_def)
  with wf c0(1) a have "c0 = c"
    by (auto simp: ids_well_formed_def distinct_map dest: inj_onD)
  with c0(2) show "custom_interrupt_requested c' = custom_interrupt_requested c"
    by (simp add: interrupt_connection_def)
qed

text \<open>
  Claim C9 fails on the code: an interrupt request does not reach the kernel the
  session is bound to, although this process supervises that kernel.

  First run: the external console holds the kernels 10 (\<^verbatim>\<open>kernel-1.json\<close>) and 20
  (\<^verbatim>\<open>kernel-2.json\<close>). A session is opened on \<^verbatim>\<open>kernel-1.json\<close>; \<^verbatim>\<open>new_client\<close> looks at
  every widget of the console and binds the session to the kernel widget 10. But
  \<^verbatim>\<open>register_client\<close> looks at the console's last widget only, which is the one of the
  other kernel, and connects the interrupt signal to \<^verbatim>\<open>interrupt_message\<close>: the request
  sends nothing and shows \<^verbatim>\<open>Cannot interrupt\<close>, the message for a kernel that is remote.

  Second run: the only kernel is 10. A session is opened on its connection file, so its
  interrupt signal is connected to \<^verbatim>\<open>keyboard_interrupt\<close> of the kernel widget 10. The
  kernel is restarted: the widget 10 leaves the console and the session is bound to the
  new kernel widget 102. \<^verbatim>\<open>connect_to_new_kernel\<close> does not connect the signal anew, and
  the request still calls \<^verbatim>\<open>keyboard_interrupt\<close> of the widget 10; the kernel 102 the
  session is bound to gets nothing.
\<close>

theorem interrupt_misses_bound_kernel:
  "run interrupt_run (init [kernel_1, kernel_2] False 100) =
     \<lparr>shellwidgets =
        [\<lparr>client_id = 101, connection_file = ''kernel-1.json'', kernel_widget_id = Some 10,
          client_name = ''1/A'', ipython_widget = 100, tab_text = ''Console 1/A'',
          custom_interrupt_requested = Client_interrupt_message,
          custom_restart_requested = Client_restart_message, plain_text = []\<rparr>],
      extconsole = [kernel_1, kernel_2], ask_before_closing = False, next_id = 102,
      questions = 0, criticals = [], informations = [(101, cannot_interrupt)],
      keyboard_interrupts = []\<rparr> \<and>
   extconsole_get_shell_index_from_id [kernel_1, kernel_2] (Some 10) = Some 0 \<and>
   run interrupt_after_restart (init [kernel_1] False 100) =
     \<lparr>shellwidgets =
        [\<lparr>client_id = 101, connection_file = ''kernel-1.json'', kernel_widget_id = Some 102,
          client_name = ''1/A'', ipython_widget = 100, tab_text = ''Console 7/A'',
          custom_interrupt_requested = Kernel_keyboard_interrupt 10,
          custom_restart_requested = Plugin_create_new_kernel, plain_text = []\<rparr>],
      extconsole = [\<lparr>kernel_id = 102, kernel_connection_file = Some ''kernel-7.json''\<rparr>],
      ask_before_closing = False, next_id = 103,
      questions = 1, criticals = [], informations = [],
      keyboard_interrupts = [10]\<rparr>"
  by (simp add: interrupt_run_def interrupt_after_restart_def run_evaluation)

lemma restart_run_before:
  "shellwidgets (run (take 2 restart_run) (init [kernel_1] False 100)) =
     [\<lparr>client_id = 101, connection_file = ''kernel-1.json'', kernel_widget_id = Some 10,
       client_name = ''1/A'', ipython_widget = 100, tab_text = ''Console 1/A'',
       custom_interrupt_requested = Kernel_keyboard_interrupt 10,
       custom_restart_requested = Plugin_create_new_kernel, plain_text = []\<rparr>,
      restarted_client (Some 10) ''Console 1/B'']"
  by (simp add: restart_run_def restarted_client_def run_evaluation)

lemma restart_run_after:
  "shellwidgets (run (take 2 (drop 2 restart_run)) (run (take 2 restart_run) (init [kernel_1] False 100))) =
     [\<lparr>client_id = 101, connection_file = ''kernel-1.json'', kernel_widget_id = Some 10,
       client_name = ''1/A'', ipython_widget = 100, tab_text = ''Console 1/A'',
       custom_interrupt_requested = Kernel_keyboard_interrupt 10,
       custom_restart_requested = Plugin_create_new_kernel, plain_text = []\<rparr>,
      restarted_client (Some 104) ''Console 7/A'']"
  by (simp add: restart_run_def restarted_client_def run_evaluation)

theorem interrupt_follows_registration_witness:
  "custom_interrupt_requested (restarted_client (Some 104) ''Console 7/A'')
     = custom_interrupt_requested (restarted_client (Some 10) ''Console 1/B'') \<and>
   restarted_client (Some 104) ''Console 7/A''
     \<in> set (shellwidgets (run (take 2 (drop 2 restart_run))
                             (run (take 2 restart_run) (init [kernel_1] False 100)))) \<and>
   interrupt_kernel (restarted_client (Some 104) ''Console 7/A'') two_on_kernel_1
     = two_on_kernel_1\<lparr>keyboard_interrupts := [10]\<rparr>"
proof -
  let ?c = "restarted_client (Some 10) ''Console 1/B''"
  let ?c' = "restarted_client (Some 104) ''Console 7/A''"
  have 1: "?c \<in> set (shellwidgets (run (take 2 restart_run) (init [kernel_1] False 100)))"
    by (simp only: restart_run_before) simp
  have 2: "?c' \<in> set (shellwidgets (run (take 2 (drop 2 restart_run))
                             (run (take 2 restart_run) (init [kernel_1] False 100))))"
    by (simp only: restart_run_after) simp
  have 3: "client_id ?c' = client_id ?c" by (simp add: restarted_client_def)
  have 4: "custom_interrupt_requested ?c' = Kernel_keyboard_interrupt 10"
    by (simp add: restarted_client_def)
  have 5: "keyboard_interrupts two_on_kernel_1 = []" by (simp add: two_on_kernel_1_def init_def)
  from interrupt_follows_registration [where c = ?c and c' = ?c' and before = "take 2 restart_run"
      and later = "take 2 (drop 2 restart_run)" and kernels = "[kernel_1]" and ask = False
      and n = 100] 1 2 3
  have a: "custom_interrupt_requested ?c' = custom_interrupt_requested ?c" by blast
  from interrupt_follows_registration [where c = ?c' and k = 10 and t = two_on_kernel_1] 4
  have b: "interrupt_kernel ?c' two_on_kernel_1
      = two_on_kernel_1\<lparr>keyboard_interrupts := keyboard_interrupts two_on_kernel_1 @ [10]\<rparr>"
    by blast
  from a b 2 5 show ?thesis by simp
qed

subsection \<open>Closing after a restart\<close>

lemma after_restart_state:
  "after_restart =
     \<lparr>shellwidgets =
        [\<lparr>client_id = 101, connection_file = ''kernel-1.json'', kernel_widget_id = Some 10,
          client_name = ''1/A'', ipython_widget = 100, tab_text = ''Console 1/A'',
          custom_interrupt_requested = Kernel_keyboard_interrupt 10,
          custom_restart_requested = Plugin_create_new_kernel, plain_text = []\<rparr>,
         restarted_client (Some 104) ''Console 7/A'',
         client_of_new_kernel],
      extconsole = [\<lparr>kernel_id = 104, kernel_connection_file = Some ''kernel-7.json''\<rparr>],
      ask_before_closing = True, next_id = 107, questions = 1, criticals = [],
      informations = [], keyboard_interrupts = []\<rparr>"
  by (simp add: after_restart_def restart_run_def restarted_client_def client_of_new_kernel_def
      run_evaluation)

text \<open>
  Claim C5 fails on the code: a close that goes ahead does not remove all the sessions
  decided upon. After the restart of \<open>restart_run\<close>, the kernel widget 104 has two
  sessions, 103 (restarted onto it) and 106 (opened on it). Session 103 is closed and
  the user answers \<^verbatim>\<open>Yes\<close> to closing the kernel and all of its clients. The kernel is
  terminated and session 103 removed, but session 106, bound to that kernel, stays
  registered, and session 101, bound to the old kernel, is removed instead:
  \<^verbatim>\<open>connect_to_new_kernel\<close> has left the \<^verbatim>\<open>connection_file\<close> of session 103 at the old
  kernel's, and \<^verbatim>\<open>close_related_ipython_clients\<close> picks the related clients by it.
\<close>

theorem close_after_restart_leaves_kernels_client:
  "sessionsForKernel after_restart 104
     = [restarted_client (Some 104) ''Console 7/A'', client_of_new_kernel] \<and>
   close_console always_yes 0 None (Some 103) False after_restart =
     Some (Returned,
           after_restart\<lparr>shellwidgets := [client_of_new_kernel], extconsole := [],
                          questions := 2\<rparr>)"
  by (simp add: after_restart_state sessionsForKernel_def restarted_client_def
      client_of_new_kernel_def close_console_def always_yes_def tab_widget_def indexOf_def
      get_shell_index_from_id_def extconsole_get_shell_index_from_id_def
      extconsole_close_console_def remove_tab_and_widget_def)

subsection \<open>The names on the tabs after a restart\<close>

text \<open>
  Claim C1 fails on the code. The name a session displays is the text of its tab:
  \<^verbatim>\<open>get_name()\<close> when \<^verbatim>\<open>add_tab\<close> registers it, and after a restart of its kernel the
  name that \<^verbatim>\<open>rename_ipython_client_tab\<close> regenerates. At the end of \<open>restart_run\<close>, a
  state the plugin reaches from its empty registry, three sessions are registered, 101,
  103 and 106, and the tabs of 103 and 106 both read \<^verbatim>\<open>Console 7/A\<close>. The restart has
  written \<^verbatim>\<open>Console 7/A\<close> on the tab of session 103 and left its \<^verbatim>\<open>client_name\<close> at
  \<^verbatim>\<open>1/B\<close>; the naming loop of \<^verbatim>\<open>new_client\<close> compares \<^verbatim>\<open>client_name\<close>s only, finds
  \<^verbatim>\<open>7/A\<close> free and gives it to session 106.
\<close>

theorem tab_names_not_unique:
  "map client_id (shellwidgets (run restart_run (init [kernel_1] True 100))) = [101, 103, 106] \<and>
   map tab_text (shellwidgets (run restart_run (init [kernel_1] True 100)))
     = [''Console 1/A'', ''Console 7/A'', ''Console 7/A''] \<and>
   map client_name (shellwidgets (run restart_run (init [kernel_1] True 100)))
     = [''1/A'', ''1/B'', ''7/A''] \<and>
   map kernel_widget_id (shellwidgets (run restart_run (init [kernel_1] True 100)))
     = [Some 10, Some 104, Some 104] \<and>
   \<not> distinct (map tab_text (shellwidgets (run restart_run (init [kernel_1] True 100))))"
  using after_restart_state
  by (simp add: after_restart_def restarted_client_def client_of_new_kernel_def)

text \<open>
  Claim C7 fails on the code. In \<open>rename_run\<close> the restart is asked from session 103,
  named \<^verbatim>\<open>1/A\<close> and bound to the kernel widget 10, while session 101 is registered under
  the name \<^verbatim>\<open>7/A\<close>. After the restart session 103 is still registered, the same object
  in the same tab, and is bound to the new kernel widget 104. But its \<^verbatim>\<open>client_name\<close> is
  still \<^verbatim>\<open>1/A\<close>, the name made from the old kernel's connection file, and its tab reads
  \<^verbatim>\<open>Console 7/A\<close>, which is what the tab of session 101 reads:
  \<^verbatim>\<open>rename_ipython_client_tab\<close> takes the letter \<^verbatim>\<open>chr(65)\<close> whatever the other sessions
  are called, where \<^verbatim>\<open>new_client\<close> goes through the letters until the name is free.
\<close>

theorem restart_tab_name_not_validated:
  "run (take 2 rename_run) (init [kernel_1] False 100) =
     \<lparr>shellwidgets =
        [\<lparr>client_id = 101, connection_file = ''kernel-7.json'', kernel_widget_id = None,
          client_name = ''7/A'', ipython_widget = 100, tab_text = ''Console 7/A'',
          custom_interrupt_requested = Client_interrupt_message,
          custom_restart_requested = Client_restart_message, plain_text = []\<rparr>,
         \<lparr>client_id = 103, connection_file = ''kernel-1.json'', kernel_widget_id = Some 10,
          client_name = ''1/A'', ipython_widget = 102, tab_text = ''Console 1/A'',
          custom_interrupt_requested = Kernel_keyboard_interrupt 10,
          custom_restart_requested = Plugin_create_new_kernel, plain_text = []\<rparr>],
      extconsole = [kernel_1], ask_before_closing = False, next_id = 104,
      questions = 0, criticals = [], informations = [], keyboard_interrupts = []\<rparr> \<and>
   run rename_run (init [kernel_1] False 100) =
     \<lparr>shellwidgets =
        [\<lparr>client_id = 101, connection_file = ''kernel-7.json'', kernel_widget_id = None,
          client_name = ''7/A'', ipython_widget = 100, tab_text = ''Console 7/A'',
          custom_interrupt_requested = Client_interrupt_message,
          custom_restart_requested = Client_restart_message, plain_text = []\<rparr>,
         \<lparr>client_id = 103, connection_file = ''kernel-1.json'', kernel_widget_id = Some 104,
          client_name = ''1/A'', ipython_widget = 102, tab_text = ''Console 7/A'',
          custom_interrupt_requested = Kernel_keyboard_interrupt 10,
          custom_restart_requested = Plugin_create_new_kernel, plain_text = []\<rparr>],
      extconsole = [\<lparr>kernel_id = 104, kernel_connection_file = Some ''kernel-7.json''\<rparr>],
      ask_before_closing = False, next_id = 105,
      questions = 1, criticals = [], informations = [], keyboard_interrupts = []\<rparr>"
  by (simp add: rename_run_def run_evaluation)

subsection \<open>The depth bound of close_console\<close>

text \<open>
  The bound is a device only: a call that comes to an end within a bound gives the same
  result within every larger one, so \<open>close_console\<close> is what the recursion computes.
\<close>

lemma close_console_fuel_more:
  "close_console_fuel n e cur index widget force s = Some p \<Longrightarrow>
   close_console_fuel (Suc n) e cur index widget force s = Some p"
  and close_related_loop_more:
  "close_related_loop n e cur client clws s = Some p \<Longrightarrow>
   close_related_loop (Suc n) e cur client clws s = Some p"
proof (induction n e cur index widget force s and n e cur client clws s
    arbitrary: p and p rule: close_console_fuel_close_related_loop.induct)
  case (1 e cur index widget force s)
  then show ?case by simp
next
  case (2 n e cur index widget force s)
  show ?case
  proof (cases "length (shellwidgets s) = 0")
    case True
    with "2.prems" show ?thesis by simp
  next
    case tabs: False
    show ?thesis
    proof (cases "tab_widget s (case widget of Some w \<Rightarrow> indexOf s w
                     | None \<Rightarrow> (case index of None \<Rightarrow> cur | Some i \<Rightarrow> i))")
      case None
      with tabs "2.prems" show ?thesis by simp
    next
      case (Some client)
      show ?thesis
      proof (cases "force")
        case True
        with tabs Some "2.prems" show ?thesis by simp
      next
        case nf: False
        show ?thesis
        proof (cases "extconsole_get_shell_index_from_id (extconsole s) (kernel_widget_id client)")
          case None
          with tabs Some nf "2.prems" show ?thesis by simp
        next
          case idx: (Some idx)
          show ?thesis
          proof (cases "ask_before_closing s \<and> answers e (questions s) = Cancel")
            case True
            with tabs Some nf idx "2.prems" show ?thesis by simp
          next
            case nc: False
            show ?thesis
            proof (cases "ask_before_closing s \<and> answers e (questions s) \<noteq> Yes")
              case True
              with tabs Some nf idx nc "2.prems" show ?thesis by simp
            next
              case all: False
              let ?s2 = "s\<lparr>questions := questions s + (if ask_before_closing s then 1 else 0),
                     extconsole := extconsole_close_console 0 (Some idx) (extconsole s)\<rparr>"
              from tabs Some nf idx nc all "2.prems" obtain q where
                l: "close_related_loop n e cur client (shellwidgets s) ?s2 = Some q"
                by (auto split: option.splits)
              from "2.IH" [OF tabs Some nf idx nc all l]
              have l': "close_related_loop (Suc n) e cur client (shellwidgets s) ?s2 = Some q" .
              have "close_console_fuel (Suc (Suc n)) e cur index widget force s
                  = close_console_fuel (Suc n) e cur index widget force s"
                using tabs Some nf idx nc all l l'
                by (simp only: close_console_fuel.simps) simp
              with "2.prems" show ?thesis by simp
            qed
          qed
        qed
      qed
    qed
  qed
next
  case (3 n e cur client s)
  then show ?case by simp
next
  case (4 n e cur client clw clws s)
  show ?case
  proof (cases "client_id clw \<noteq> client_id client \<and> connection_file clw = connection_file client")
    case False
    with "4.prems" "4.IH"(3) show ?thesis by auto
  next
    case True
    from True "4.prems" obtain r1 s1 where
      c: "close_console_fuel n e cur None (Some (client_id clw)) False s = Some (r1, s1)"
      by (auto split: option.splits)
    from "4.IH"(1) [OF True c]
    have c': "close_console_fuel (Suc n) e cur None (Some (client_id clw)) False s = Some (r1, s1)" .
    show ?thesis
    proof (cases r1)
      case Returned
      with True c "4.prems" have "close_related_loop n e cur client clws s1 = Some p" by simp
      from "4.IH"(2) [OF True c _ Returned this]
      have "close_related_loop (Suc n) e cur client clws s1 = Some p" by simp
      with True c' Returned show ?thesis by (simp del: close_console_fuel.simps)
    next
      case (Raised x)
      with True c "4.prems" have "p = (r1, s1)" by simp
      with True c' Raised show ?thesis by (simp del: close_console_fuel.simps)
    next
      case Blocked
      with True c "4.prems" have "p = (r1, s1)" by simp
      with True c' Blocked show ?thesis by (simp del: close_console_fuel.simps)
    qed
  qed
qed

lemma close_console_fuel_enough:
  "close_console_fuel (Suc (length (extconsole s)) + m) e cur index widget force s
   = close_console e cur index widget force s"
proof (induction m)
  case 0
  show ?case by (simp add: close_console_def)
next
  case (Suc m)
  from close_console_returns [of e cur index widget force s] obtain p where
    p: "close_console e cur index widget force s = Some p" by auto
  with Suc have "close_console_fuel (Suc (length (extconsole s)) + m) e cur index widget force s = Some p"
    by simp
  from close_console_fuel_more [OF this] p show ?case by simp
qed

subsection \<open>Closing a kernel with its clients\<close>

lemma tab_widget_indexOf_distinct:
  assumes "distinct (map client_id (shellwidgets s))" and "x \<in> set (shellwidgets s)"
  shows "tab_widget s (indexOf s (client_id x)) = Some x"
proof -
  from assms(2) have "client_id x \<in> client_id ` set (shellwidgets s)" by simp
  from tab_widget_indexOf [OF this] obtain c where
    c: "tab_widget s (indexOf s (client_id x)) = Some c" "client_id c = client_id x"
      "c \<in> set (shellwidgets s)" by blast
  with assms have "c = x" by (auto simp: distinct_map dest: inj_onD)
  with c show ?thesis by simp
qed

lemma close_related_loop_all:
  assumes n: "0 < n"
    and none: "\<forall>x\<in>set xs. client_id x \<noteq> client_id c \<and> connection_file x = connection_file c \<longrightarrow>
        extconsole_get_shell_index_from_id (extconsole t) (kernel_widget_id x) = None"
  shows "distinct (map client_id (shellwidgets t)) \<Longrightarrow> distinct (map client_id xs) \<Longrightarrow>
    \<forall>x\<in>set xs. client_id x \<noteq> client_id c \<and> connection_file x = connection_file c \<longrightarrow>
        x \<in> set (shellwidgets t) \<Longrightarrow>
    extconsole t = ext \<Longrightarrow>
    close_related_loop n e cur c xs t =
      Some (Returned,
        t\<lparr>shellwidgets :=
            filter (\<lambda>y. \<not> (client_id y \<noteq> client_id c \<and> connection_file y = connection_file c \<and>
                            y \<in> set xs)) (shellwidgets t)\<rparr>)"
  using none
proof (induction xs arbitrary: t)
  case Nil
  show ?case by simp
next
  case (Cons x xs)
  obtain m where m: "n = Suc m" using n by (cases n) auto
  show ?case
  proof (cases "client_id x \<noteq> client_id c \<and> connection_file x = connection_file c")
    case False
    have "filter (\<lambda>y. \<not> (client_id y \<noteq> client_id c \<and> connection_file y = connection_file c \<and>
                            y \<in> set (x # xs))) (shellwidgets t)
        = filter (\<lambda>y. \<not> (client_id y \<noteq> client_id c \<and> connection_file y = connection_file c \<and>
                            y \<in> set xs)) (shellwidgets t)"
      using False by (intro filter_cong) auto
    moreover have "close_related_loop n e cur c xs t =
      Some (Returned,
        t\<lparr>shellwidgets :=
            filter (\<lambda>y. \<not> (client_id y \<noteq> client_id c \<and> connection_file y = connection_file c \<and>
                            y \<in> set xs)) (shellwidgets t)\<rparr>)"
      using Cons.prems by (intro Cons.IH) auto
    moreover have "close_related_loop n e cur c (x # xs) t = close_related_loop n e cur c xs t"
      using False by (auto simp del: close_console_fuel.simps)
    ultimately show ?thesis by (simp only:)
  next
    case True
    with Cons.prems have x: "x \<in> set (shellwidgets t)"
      and nox: "extconsole_get_shell_index_from_id (extconsole t) (kernel_widget_id x) = None"
      by auto
    from x have ne: "length (shellwidgets t) \<noteq> 0" by auto
    from x have xin: "client_id x \<in> set (map client_id (shellwidgets t))" by simp
    let ?t' = "t\<lparr>shellwidgets := filter (\<lambda>y. client_id y \<noteq> client_id x) (shellwidgets t)\<rparr>"
    have nested: "close_console_fuel n e cur None (Some (client_id x)) False t = Some (Returned, ?t')"
      using ne nox xin tab_widget_indexOf_distinct [OF Cons.prems(1) x]
        remove_widget_distinct [OF Cons.prems(1), of "client_id x"]
      by (simp add: m remove_tab_and_widget_def)
    have d': "distinct (map client_id (shellwidgets ?t'))"
      using Cons.prems(1) by (simp add: distinct_map_filter)
    have dx: "distinct (map client_id xs)" using Cons.prems(2) by simp
    from Cons.prems(2) have "client_id x \<notin> client_id ` set xs" by simp
    then have idx: "\<forall>y\<in>set xs. client_id y \<noteq> client_id x" by (metis image_eqI)
    have mem: "\<forall>y\<in>set xs. client_id y \<noteq> client_id c \<and> connection_file y = connection_file c \<longrightarrow>
        y \<in> set (shellwidgets ?t')"
      using Cons.prems(3) idx by auto
    have none': "\<forall>y\<in>set xs. client_id y \<noteq> client_id c \<and> connection_file y = connection_file c \<longrightarrow>
        extconsole_get_shell_index_from_id (extconsole ?t') (kernel_widget_id y) = None"
      using Cons.prems(5) by simp
    have ih: "close_related_loop n e cur c xs ?t' =
      Some (Returned,
        ?t'\<lparr>shellwidgets :=
            filter (\<lambda>y. \<not> (client_id y \<noteq> client_id c \<and> connection_file y = connection_file c \<and>
                            y \<in> set xs)) (shellwidgets ?t')\<rparr>)"
      using Cons.prems(4) by (intro Cons.IH [OF d' dx mem _ none']) simp
    have same: "\<And>y. y \<in> set (shellwidgets t) \<Longrightarrow> (client_id y = client_id x) = (y = x)"
      using Cons.prems(1) x by (auto simp: distinct_map dest: inj_onD)
    have "filter (\<lambda>y. \<not> (client_id y \<noteq> client_id c \<and> connection_file y = connection_file c \<and>
                            y \<in> set xs)) (filter (\<lambda>y. client_id y \<noteq> client_id x) (shellwidgets t))
        = filter (\<lambda>y. \<not> (client_id y \<noteq> client_id c \<and> connection_file y = connection_file c \<and>
                            y \<in> set (x # xs))) (shellwidgets t)"
      unfolding filter_filter using True same by (intro filter_cong) auto
    with ih nested True show ?thesis by (simp del: close_console_fuel.simps)
  qed
qed

text \<open>
  The close that goes ahead with the kernel, where the registry is as \<^verbatim>\<open>new_client\<close>
  builds it: when no other client on the closed client's connection file has a kernel
  widget that is still in the external console once the client's kernel is closed, the
  call returns with the kernel's widget gone from the external console and with every
  client on that connection file, the closed one included, removed from the registry;
  every other client stays in place.
\<close>

theorem close_console_closes_kernel_and_clients:
  assumes c: "c \<in> set (shellwidgets s)"
    and d: "distinct (map client_id (shellwidgets s))"
    and idx: "extconsole_get_shell_index_from_id (extconsole s) (kernel_widget_id c) = Some idx"
    and go: "\<not> ask_before_closing s \<or> answers e (questions s) = Yes"
    and rel: "\<forall>x\<in>set (shellwidgets s).
        client_id x \<noteq> client_id c \<and> connection_file x = connection_file c \<longrightarrow>
        extconsole_get_shell_index_from_id
          (extconsole_close_console 0 (Some idx) (extconsole s)) (kernel_widget_id x) = None"
  shows "close_console e cur index (Some (client_id c)) False s =
    Some (Returned,
      s\<lparr>questions := questions s + (if ask_before_closing s then 1 else 0),
        extconsole := extconsole_close_console 0 (Some idx) (extconsole s),
        shellwidgets := filter (\<lambda>x. connection_file x \<noteq> connection_file c) (shellwidgets s)\<rparr>)"
proof -
  let ?s2 = "s\<lparr>questions := questions s + (if ask_before_closing s then 1 else 0),
               extconsole := extconsole_close_console 0 (Some idx) (extconsole s)\<rparr>"
  let ?rel = "\<lambda>y. client_id y \<noteq> client_id c \<and> connection_file y = connection_file c"
  have pos: "0 < length (extconsole s)"
    using extconsole_index_bound [OF idx] by (cases "extconsole s") simp_all
  have loop: "close_related_loop (length (extconsole s)) e cur c (shellwidgets s) ?s2 =
      Some (Returned,
        ?s2\<lparr>shellwidgets :=
            filter (\<lambda>y. \<not> (client_id y \<noteq> client_id c \<and> connection_file y = connection_file c \<and>
                            y \<in> set (shellwidgets s))) (shellwidgets ?s2)\<rparr>)"
    using d rel
    by (intro close_related_loop_all [OF pos, where ext = "extconsole ?s2"]) simp_all
  have f1: "filter (\<lambda>y. \<not> (client_id y \<noteq> client_id c \<and> connection_file y = connection_file c \<and>
                            y \<in> set (shellwidgets s))) (shellwidgets s)
      = filter (\<lambda>y. \<not> ?rel y) (shellwidgets s)"
    by (intro filter_cong) auto
  let ?s3 = "?s2\<lparr>shellwidgets := filter (\<lambda>y. \<not> ?rel y) (shellwidgets s)\<rparr>"
  from loop f1 have loop': "close_related_loop (length (extconsole s)) e cur c (shellwidgets s) ?s2
      = Some (Returned, ?s3)" by simp
  have cin: "client_id c \<in> set (map client_id (shellwidgets ?s3))" using c by auto
  have d3: "distinct (map client_id (shellwidgets ?s3))" using d by (simp add: distinct_map_filter)
  have same: "\<And>y. y \<in> set (shellwidgets s) \<Longrightarrow> (client_id y = client_id c) = (y = c)"
    using d c by (auto simp: distinct_map dest: inj_onD)
  have f2: "filter (\<lambda>y. client_id y \<noteq> client_id c) (filter (\<lambda>y. \<not> ?rel y) (shellwidgets s))
      = filter (\<lambda>x. connection_file x \<noteq> connection_file c) (shellwidgets s)"
    unfolding filter_filter using same by (intro filter_cong) auto
  have rm: "remove_tab_and_widget (client_id c) ?s3 =
      (Returned, ?s2\<lparr>shellwidgets := filter (\<lambda>x. connection_file x \<noteq> connection_file c) (shellwidgets s)\<rparr>)"
    using cin remove_widget_distinct [OF d3, of "client_id c"] f2
    by (simp add: remove_tab_and_widget_def)
  from c have ne: "length (shellwidgets s) \<noteq> 0" by auto
  from tab_widget_indexOf_distinct [OF d c] idx go loop' rm ne show ?thesis
    by (auto simp: close_console_def simp del: close_related_loop.simps)
qed

theorem close_console_closes_kernel_and_clients_witness:
  "close_console always_yes 0 None (Some 3) False two_on_kernel_1 =
     Some (Returned,
       two_on_kernel_1\<lparr>extconsole := [kernel_2],
         shellwidgets := [a_client 1 ''kernel-2.json'' (Some 20) ''2/A'']\<rparr>)"
proof -
  let ?c = "a_client 3 ''kernel-1.json'' (Some 10) ''1/A''"
  have sw: "shellwidgets two_on_kernel_1 =
      [a_client 1 ''kernel-2.json'' (Some 20) ''2/A'', ?c, a_client 5 ''kernel-1.json'' (Some 10) ''1/B'']"
    by (simp add: two_on_kernel_1_def init_def)
  have ex: "extconsole two_on_kernel_1 = [kernel_1, kernel_2]"
    and ask: "\<not> ask_before_closing two_on_kernel_1"
    by (simp_all add: two_on_kernel_1_def init_def)
  have c: "?c \<in> set (shellwidgets two_on_kernel_1)" by (simp add: sw)
  have d: "distinct (map client_id (shellwidgets two_on_kernel_1))" by (simp add: sw a_client_def)
  have idx: "extconsole_get_shell_index_from_id (extconsole two_on_kernel_1) (kernel_widget_id ?c) = Some 0"
    by (simp add: ex extconsole_get_shell_index_from_id_def a_client_def kernel_1_def)
  have cl: "extconsole_close_console 0 (Some 0) (extconsole two_on_kernel_1) = [kernel_2]"
    by (simp add: ex extconsole_close_console_def)
  have rel: "\<forall>x\<in>set (shellwidgets two_on_kernel_1).
        client_id x \<noteq> client_id ?c \<and> connection_file x = connection_file ?c \<longrightarrow>
        extconsole_get_shell_index_from_id
          (extconsole_close_console 0 (Some 0) (extconsole two_on_kernel_1)) (kernel_widget_id x) = None"
    by (simp add: cl sw a_client_def kernel_2_def extconsole_get_shell_index_from_id_def)
  have f: "filter (\<lambda>x. connection_file x \<noteq> connection_file ?c) (shellwidgets two_on_kernel_1)
      = [a_client 1 ''kernel-2.json'' (Some 20) ''2/A'']"
    by (simp add: sw a_client_def)
  have i: "client_id ?c = 3" by (simp add: a_client_def)
  from close_console_closes_kernel_and_clients [OF c d idx _ rel, of always_yes 0 None] ask
  have "close_console always_yes 0 None (Some (client_id ?c)) False two_on_kernel_1 =
    Some (Returned,
      two_on_kernel_1\<lparr>questions := questions two_on_kernel_1 + 0,
        extconsole := extconsole_close_console 0 (Some 0) (extconsole two_on_kernel_1),
        shellwidgets := filter (\<lambda>x. connection_file x \<noteq> connection_file ?c)
                          (shellwidgets two_on_kernel_1)\<rparr>)"
    by simp
  then show ?thesis unfolding i cl f by (simp add: two_on_kernel_1_def init_def)
qed

text \<open>Every call of \<^verbatim>\<open>close_console\<close> ends, by a return or by an exception.\<close>

theorem close_console_terminates:
  "close_console e cur index widget force s \<noteq> None"
  using close_console_returns [of e cur index widget force s] by auto

end
